theory Spec2Isabelle
  imports Main
begin

section \<open>Data model of EICRootWriter.cc\<close>

text \<open>
  The writer copies the objects of the JANA factories of one event into an
  \<open>EICEventStore\<close>, one \<open>DataVector\<close> per collection, and writes the store
  as one entry of the \<open>events\<close> TTree, creating branches on the fly.

  A \<open>std::type_index\<close> is modelled by the name of the type it stands for.
  The type variable \<open>'r\<close> is the high-level object a factory holds, \<open>'v\<close> the
  POD value that ends in a data vector.
\<close>

type_synonym type_index = string

text \<open>
  The part of \<open>JFactory\<close> (JANA) that the writer reads: \<open>GetTag()\<close>,
  \<open>GetObjectName()\<close>, \<open>GetObjectType()\<close>, \<open>GetNumObjects()\<close> and
  \<open>GetAs<T>()\<close>, the objects of the factory seen as objects of type \<open>T\<close>.
\<close>

record 'r JFactory =
  GetTag :: string
  GetObjectName :: string
  GetObjectType :: type_index
  GetNumObjects :: nat
  GetAs :: "type_index \<Rightarrow> 'r list"

text \<open>
  Modelled from the spec: \<open>EICEventStore::DataVector\<close> is declared in
  EICEventStore.h, which is not among the sources. The source reads its members
  \<open>name\<close> and \<open>className\<close> and the vector behind \<open>GetVectorAddress()\<close>; the
  spec calls the three \<open>name\<close>, \<open>declared_type\<close> and \<open>storage\<close>.
\<close>

record 'v DataVector =
  name :: string
  className :: string
  storage :: "'v list"

text \<open>
  Modelled from the spec: \<open>EICEventStore\<close> (EICEventStore.h) is the per-event
  list \<open>m_datavectors\<close> of data vectors, and \<open>Swap\<close> exchanges the contents
  of two stores.
\<close>

record 'v EICEventStore =
  m_datavectors :: "'v DataVector list"

definition Swap :: "'v EICEventStore \<Rightarrow> 'v EICEventStore \<Rightarrow> 'v EICEventStore \<times> 'v EICEventStore" where
  "Swap this other =
     (this\<lparr>m_datavectors := m_datavectors other\<rparr>, other\<lparr>m_datavectors := m_datavectors this\<rparr>)"

text \<open>
  Modelled from the spec: \<open>MakeDataVector(name, className)\<close> (declared outside
  the sources) gives a data vector of that name and class with no elements;
  \<open>CreateBranch\<close> relies on exactly that.
\<close>

definition MakeDataVector :: "string \<Rightarrow> string \<Rightarrow> 'v DataVector" where
  "MakeDataVector n cn = \<lparr>name = n, className = cn, storage = []\<rparr>"

text \<open>
  The event as the writer sees it: \<open>GetAllFactories()\<close> and
  \<open>GetSingle<EICEventStore>()\<close>, which is a null pointer when no store is
  attached to the event.
\<close>

record ('r, 'v) JEvent =
  GetAllFactories :: "'r JFactory list"
  GetSingle_EICEventStore :: "'v EICEventStore option"

subsection \<open>The ROOT tree\<close>

text \<open>
  A branch has a name, a class name, the address it reads from when it is
  filled, and the entries filled so far. The address is modelled by the contents
  of the vector it points to at the time it is set: \<open>ResetBranches\<close> sets it
  after the vectors of the event are complete and the tree is filled right
  after, so this is what the fill reads. (A branch whose collection is absent
  from a later event keeps a stale address; no statement below depends on what
  is read through it.)
\<close>

record 'v TBranch =
  branch_name :: string
  branch_className :: string
  address :: "'v list"
  baskets :: "'v list list"

text \<open>\<open>TTree\<close>: its branches and \<open>GetEntries()\<close>, the number of \<open>TTree::Fill\<close> calls.\<close>

record 'v TTree =
  branches :: "'v TBranch list"
  GetEntries :: nat

text \<open>\<open>TBranch::Fill\<close> appends what the address holds to this branch only.\<close>

definition TBranch_Fill :: "'v TBranch \<Rightarrow> 'v TBranch" where
  "TBranch_Fill b = b\<lparr>baskets := baskets b @ [address b]\<rparr>"

definition SetAddress :: "'v list \<Rightarrow> 'v TBranch \<Rightarrow> 'v TBranch" where
  "SetAddress a b = b\<lparr>address := a\<rparr>"

text \<open>\<open>TTree::Fill\<close> fills every branch and counts one more entry.\<close>

definition TTree_Fill :: "'v TTree \<Rightarrow> 'v TTree" where
  "TTree_Fill t = \<lparr>branches = map TBranch_Fill (branches t), GetEntries = Suc (GetEntries t)\<rparr>"

text \<open>\<open>TTree::Branch(name, className, address)\<close> adds a branch without entries.\<close>

definition TTree_Branch :: "string \<Rightarrow> string \<Rightarrow> 'v list \<Rightarrow> 'v TTree \<Rightarrow> 'v TTree" where
  "TTree_Branch n cn a t =
     t\<lparr>branches := branches t @ [\<lparr>branch_name = n, branch_className = cn, address = a, baskets = []\<rparr>]\<rparr>"

text \<open>\<open>TTree::SetBranchAddress(name, address)\<close> rebinds the branch of that name.\<close>

definition SetBranchAddress :: "string \<Rightarrow> 'v list \<Rightarrow> 'v TTree \<Rightarrow> 'v TTree" where
  "SetBranchAddress n a t =
     t\<lparr>branches := map (\<lambda>b. if branch_name b = n then SetAddress a b else b) (branches t)\<rparr>"

subsection \<open>The collection ID table\<close>

text \<open>
  Modelled from the spec: \<open>podio::CollectionIDTable\<close> is not among the sources.
  The spec's Column Registry holds entries \<open>{name, id}\<close> with unique names, and
  the IDs are given in first-seen order and never reused. The model is the list
  of entries in the order they were added; the ID of a new name is the number of
  entries after adding it.
\<close>

type_synonym CollectionIDTable = "(string \<times> int) list"

definition present :: "CollectionIDTable \<Rightarrow> string \<Rightarrow> bool" where
  "present t n = (n \<in> set (map fst t))"

definition add :: "CollectionIDTable \<Rightarrow> string \<Rightarrow> CollectionIDTable" where
  "add t n = (if present t n then t else t @ [(n, int (length t) + 1)])"

definition collectionID :: "CollectionIDTable \<Rightarrow> string \<Rightarrow> int option" where
  "collectionID t n = map_of t n"

subsection \<open>The writer\<close>

record 'v EICRootWriter =
  m_OUTPUT_INCLUDE_COLLECTIONS :: "string set"
  m_OUTPUT_EXCLUDE_COLLECTIONS :: "string set"
  m_datatree :: "'v TTree"
  m_evtMDtree :: nat
  m_collection_branches :: "string \<rightharpoonup> string"
  m_collectionIDtable :: CollectionIDTable

text \<open>
  Modelled from the spec: the accessor is declared in EICRootWriter.h, which is
  not among the sources; it returns the exclude set (the spec's "exclude-set
  accessor").
\<close>

definition GetExcludeCollections :: "'v EICRootWriter \<Rightarrow> string set" where
  "GetExcludeCollections writer = m_OUTPUT_EXCLUDE_COLLECTIONS writer"

section \<open>DeriveCollectionName\<close>

text \<open>
  \<open>DeriveCollectionName<T>(edm4hep_name, fac)\<close>; the template argument is the
  first parameter. The parameter \<open>edm4hep_name\<close> is not used by the source.
\<close>

definition DeriveCollectionName :: "type_index \<Rightarrow> string \<Rightarrow> 'r JFactory \<Rightarrow> string" where
  "DeriveCollectionName T edm4hep_name fac =
     (if GetTag fac = [] then GetObjectName fac
      else if T = GetObjectType fac then GetTag fac
      else GetObjectName fac)"

text \<open>The rule of the spec (4.1), written from its words, for comparison.\<close>

datatype resolution = Use_type_name | Use_tag

definition spec_resolution :: "string \<Rightarrow> type_index \<Rightarrow> type_index \<Rightarrow> resolution" where
  "spec_resolution tag runtime_type target_type =
     (if tag = [] then Use_type_name
      else if runtime_type = target_type then Use_tag
      else Use_type_name)"

definition spec_column_name :: "type_index \<Rightarrow> 'r JFactory \<Rightarrow> string" where
  "spec_column_name T fac =
     (case spec_resolution (GetTag fac) (GetObjectType fac) T of
        Use_type_name \<Rightarrow> GetObjectName fac
      | Use_tag \<Rightarrow> GetTag fac)"

section \<open>PutPODIODataT\<close>

text \<open>
  The loop of lines 105 to 110: the position of the first data vector of the
  store with the given name, if there is one.
\<close>

fun find_datavector :: "string \<Rightarrow> 'v DataVector list \<Rightarrow> nat option" where
  "find_datavector n [] = None"
| "find_datavector n (dv # dvs) =
     (if name dv = n then Some 0
      else case find_datavector n dvs of None \<Rightarrow> None | Some i \<Rightarrow> Some (Suc i))"

text \<open>
  Lines 127 to 137: every object is cloned into a podio collection, which then
  prepares its write buffer. What podio does to one object is the parameter
  \<open>native\<close>: the POD value of the object, or the \<open>what()\<close> of the exception
  raised. The first exception ends the conversion.
\<close>

fun collect :: "('r \<Rightarrow> string + 'v) \<Rightarrow> 'r list \<Rightarrow> string + 'v list" where
  "collect native [] = Inr []"
| "collect native (obj # v) =
     (case native obj of
        Inl what \<Rightarrow> Inl what
      | Inr pod \<Rightarrow> (case collect native v of Inl what \<Rightarrow> Inl what | Inr pods \<Rightarrow> Inr (pod # pods)))"

text \<open>
  The two early returns of lines 95 to 101. The second test reads the exclude
  set again, as the source does (\<open>writer->GetExcludeCollections()\<close> on line 100).
\<close>

definition bail_early :: "'v EICRootWriter \<Rightarrow> string \<Rightarrow> bool" where
  "bail_early writer collection_name =
     (let exclude_collections = GetExcludeCollections writer in
      if collection_name \<in> exclude_collections then True
      else let include_collections = GetExcludeCollections writer in
        include_collections \<noteq> {} \<and> collection_name \<notin> include_collections)"

text \<open>
  \<open>PutPODIODataT<T, C>(writer, fac, store)\<close>. \<open>T\<close> is the first parameter and
  \<open>valueTypeName\<close> is \<open>C().getValueTypeName()\<close>, the local \<open>className\<close> of the source. The store is passed by reference,
  so the result holds the store as the call leaves it, also when it leaves by an
  exception (\<open>Inl\<close>, with the \<open>what()\<close>); \<open>Inr\<close> holds the returned name.
\<close>

definition PutPODIODataT ::
  "type_index \<Rightarrow> string \<Rightarrow> ('r \<Rightarrow> string + 'v) \<Rightarrow> 'v EICRootWriter \<Rightarrow> 'r JFactory \<Rightarrow>
   'v EICEventStore \<Rightarrow> 'v EICEventStore \<times> (string + string)" where
  "PutPODIODataT T valueTypeName native writer fac store =
     (let collection_name = DeriveCollectionName T valueTypeName fac in
      if bail_early writer collection_name then (store, Inr [])
      else
        let (databuffer, store1) =
              (case find_datavector collection_name (m_datavectors store) of
                 Some i \<Rightarrow> (i, store)
               | None \<Rightarrow>
                   (length (m_datavectors store),
                    store\<lparr>m_datavectors :=
                      m_datavectors store @ [\<lparr>name = collection_name, className = valueTypeName, storage = []\<rparr>]\<rparr>))
        in case collect native (GetAs fac T) of
             Inl what \<Rightarrow> (store1, Inl what)
           | Inr pods \<Rightarrow>
               (store1\<lparr>m_datavectors :=
                  (m_datavectors store1)[databuffer := (m_datavectors store1 ! databuffer)\<lparr>storage := pods\<rparr>]\<rparr>,
                Inr collection_name))"

text \<open>
  Modelled from the spec: \<open>PutPODIOData\<close> is generated into datamodel_glue.h,
  which is not among the sources. It calls the \<open>PutPODIODataT<T, C>\<close> that fits
  the factory; a factory whose type maps to no record type contributes nothing
  and the empty name is returned. The table of the generated code is the
  parameter \<open>glue\<close>: the \<open>T\<close> and the value type name of \<open>C\<close> for a factory.
\<close>

definition PutPODIOData ::
  "('r JFactory \<Rightarrow> (type_index \<times> string) option) \<Rightarrow> ('r \<Rightarrow> string + 'v) \<Rightarrow> 'v EICRootWriter \<Rightarrow>
   'r JFactory \<Rightarrow> 'v EICEventStore \<Rightarrow> 'v EICEventStore \<times> (string + string)" where
  "PutPODIOData glue native writer fac store =
     (case glue fac of
        None \<Rightarrow> (store, Inr [])
      | Some (T, valueTypeName) \<Rightarrow> PutPODIODataT T valueTypeName native writer fac store)"

section \<open>Init\<close>

text \<open>
  \<open>getline(ss, substr, ',')\<close> on the rest of the stream: the characters before
  the next delimiter, the stream after that delimiter, and \<open>ss.good()\<close>
  afterwards. The stream stays good exactly when a delimiter was found; reaching
  the end sets \<open>eofbit\<close>.
\<close>

fun getline :: "string \<Rightarrow> char \<Rightarrow> string \<times> string \<times> bool" where
  "getline [] delim = ([], [], False)"
| "getline (c # cs) delim =
     (if c = delim then ([], cs, True)
      else case getline cs delim of (substr, ss, good) \<Rightarrow> (c # substr, ss, good))"

lemma getline_shorter: "getline cs delim = (substr, ss, True) \<Longrightarrow> length ss < length cs"
  by (induction cs arbitrary: substr) (auto split: if_splits prod.splits)

text \<open>The loop \<open>while (ss.good()) { getline(ss, substr, ','); set.insert(substr); }\<close>.\<close>

function insert_collections :: "string \<Rightarrow> string set \<Rightarrow> string set" where
  "insert_collections ss collections =
     (case getline ss (CHR '','') of
        (substr, ss', good) \<Rightarrow>
          if good then insert_collections ss' (insert substr collections)
          else insert substr collections)"
  by pat_completeness auto
termination
  by (relation "measure (\<lambda>(ss, collections). length ss)") (auto dest: getline_shorter [OF sym])

definition parse_collections :: "string \<Rightarrow> string set" where
  "parse_collections str = (if str \<noteq> [] then insert_collections str {} else {})"

text \<open>
  \<open>Init\<close>, as far as the filter sets and the trees go. The arguments are the
  values of PODIO:OUTPUT_INCLUDE_COLLECTIONS and PODIO:OUTPUT_EXCLUDE_COLLECTIONS.
\<close>

definition Init :: "string \<Rightarrow> string \<Rightarrow> 'v EICRootWriter" where
  "Init m_include_collections_str m_exclude_collections_str =
     \<lparr>m_OUTPUT_INCLUDE_COLLECTIONS = parse_collections m_include_collections_str,
      m_OUTPUT_EXCLUDE_COLLECTIONS = parse_collections m_exclude_collections_str,
      m_datatree = \<lparr>branches = [], GetEntries = 0\<rparr>,
      m_evtMDtree = 0,
      m_collection_branches = Map.empty,
      m_collectionIDtable = []\<rparr>"

section \<open>CreateBranch, ResetBranches and Process\<close>

text \<open>
  \<open>CreateBranch(dv)\<close>: the new branch is bound to an empty data vector, filled
  once for every entry the tree already has, and bound to \<open>dv\<close> again.
\<close>

definition CreateBranch :: "'v DataVector \<Rightarrow> 'v EICRootWriter \<Rightarrow> 'v EICRootWriter" where
  "CreateBranch dv writer =
     (let tree = TTree_Branch (name dv) (className dv) (storage dv) (m_datatree writer);
          collection_branches = (m_collection_branches writer)(name dv \<mapsto> className dv);
          tmpdv = MakeDataVector (name dv) (className dv);
          branch = SetAddress (storage tmpdv) (last (branches tree));
          Nentries = GetEntries tree;
          branch = (TBranch_Fill ^^ Nentries) branch;
          branch = SetAddress (storage dv) branch
      in writer\<lparr>m_datatree := tree\<lparr>branches := butlast (branches tree) @ [branch]\<rparr>,
                m_collection_branches := collection_branches\<rparr>)"

text \<open>The body of the loop of \<open>ResetBranches\<close> for one data vector of the store.\<close>

definition ResetBranch :: "'v DataVector \<Rightarrow> 'v EICRootWriter \<Rightarrow> 'v EICRootWriter" where
  "ResetBranch dv writer =
     (if name dv \<in> m_OUTPUT_EXCLUDE_COLLECTIONS writer then writer
      else if m_OUTPUT_INCLUDE_COLLECTIONS writer \<noteq> {} \<and> name dv \<notin> m_OUTPUT_INCLUDE_COLLECTIONS writer
        then writer
      else
        let writer = (if m_collection_branches writer (name dv) = None then CreateBranch dv writer else writer);
            writer = writer\<lparr>m_datatree := SetBranchAddress (name dv) (storage dv) (m_datatree writer)\<rparr>
        in if \<not> present (m_collectionIDtable writer) (name dv)
           then writer\<lparr>m_collectionIDtable := add (m_collectionIDtable writer) (name dv)\<rparr>
           else writer)"

definition ResetBranches :: "'v EICEventStore \<Rightarrow> 'v EICRootWriter \<Rightarrow> 'v EICRootWriter" where
  "ResetBranches store writer = fold ResetBranch (m_datavectors store) writer"

text \<open>
  The loop over the factories in \<open>Process\<close>, with the store and the lines
  written to \<open>std::cerr\<close> as its state.
\<close>

fun put_factories ::
  "('r JFactory \<Rightarrow> (type_index \<times> string) option) \<Rightarrow> ('r \<Rightarrow> string + 'v) \<Rightarrow> 'v EICRootWriter \<Rightarrow>
   'r JFactory list \<Rightarrow> 'v EICEventStore \<times> string list \<Rightarrow> 'v EICEventStore \<times> string list" where
  "put_factories glue native writer [] (store, cerr) = (store, cerr)"
| "put_factories glue native writer (fac # facs) (store, cerr) =
     (if GetNumObjects fac \<noteq> 0 then
        (case PutPODIOData glue native writer fac store of
           (store', Inr collection_name) \<Rightarrow> put_factories glue native writer facs (store', cerr)
         | (store', Inl what) \<Rightarrow>
             put_factories glue native writer facs (store', cerr @ [what @ '' : '' @ GetObjectName fac]))
      else put_factories glue native writer facs (store, cerr))"

text \<open>
  \<open>Process(event)\<close> between \<open>Init\<close> and \<open>Finish\<close>, where both trees exist. The
  result is the writer, the event (whose attached store, if any, is swapped
  back) and the lines written to \<open>std::cerr\<close>.
\<close>

definition Process ::
  "('r JFactory \<Rightarrow> (type_index \<times> string) option) \<Rightarrow> ('r \<Rightarrow> string + 'v) \<Rightarrow> 'v EICRootWriter \<Rightarrow>
   ('r, 'v) JEvent \<Rightarrow> 'v EICRootWriter \<times> ('r, 'v) JEvent \<times> string list" where
  "Process glue native writer event =
     (let store = \<lparr>m_datavectors = []\<rparr>;
          es = GetSingle_EICEventStore event;
          (store, es) = (case es of
                           Some other \<Rightarrow> (case Swap store other of (s, other') \<Rightarrow> (s, Some other'))
                         | None \<Rightarrow> (store, None));
          (store, cerr) = put_factories glue native writer (GetAllFactories event) (store, []);
          writer = ResetBranches store writer;
          writer = writer\<lparr>m_datatree := TTree_Fill (m_datatree writer), m_evtMDtree := Suc (m_evtMDtree writer)\<rparr>;
          es = (case es of
                  Some other \<Rightarrow> (case Swap store other of (s, other') \<Rightarrow> Some other')
                | None \<Rightarrow> None)
      in (writer, event\<lparr>GetSingle_EICEventStore := es\<rparr>, cerr))"

text \<open>A job: the events processed one after the other.\<close>

fun Process_all ::
  "('r JFactory \<Rightarrow> (type_index \<times> string) option) \<Rightarrow> ('r \<Rightarrow> string + 'v) \<Rightarrow> 'v EICRootWriter \<Rightarrow>
   ('r, 'v) JEvent list \<Rightarrow> 'v EICRootWriter" where
  "Process_all glue native writer [] = writer"
| "Process_all glue native writer (event # events) =
     Process_all glue native (fst (Process glue native writer event)) events"

section \<open>Auxiliary notions\<close>

text \<open>
  A name is filtered by the writer when \<open>ResetBranches\<close> skips a data vector
  of that name (lines 298 and 301).
\<close>

definition filtered :: "'v EICRootWriter \<Rightarrow> string \<Rightarrow> bool" where
  "filtered writer n =
     (n \<in> m_OUTPUT_EXCLUDE_COLLECTIONS writer
      \<or> (m_OUTPUT_INCLUDE_COLLECTIONS writer \<noteq> {} \<and> n \<notin> m_OUTPUT_INCLUDE_COLLECTIONS writer))"

text \<open>Every branch of the tree has as many entries as the tree.\<close>

definition rows_aligned :: "'v TTree \<Rightarrow> bool" where
  "rows_aligned t = list_all (\<lambda>b. length (baskets b) = GetEntries t) (branches t)"

text \<open>
  The fields of a comma-separated string, by the usual rule: a string with k
  commas has k + 1 fields, some of them possibly empty.
\<close>

fun comma_fields :: "string \<Rightarrow> string list" where
  "comma_fields [] = [[]]"
| "comma_fields (c # cs) =
     (if c = CHR '','' then [] # comma_fields cs
      else case comma_fields cs of f # fs \<Rightarrow> (c # f) # fs | [] \<Rightarrow> [[c]])"

text \<open>
  The IDs of a table are 1, 2, ... in the order of its entries, and no name occurs
  twice.
\<close>

definition ids_in_order :: "CollectionIDTable \<Rightarrow> bool" where
  "ids_in_order t = (map snd t = map int [1..<Suc (length t)] \<and> distinct (map fst t))"

text \<open>
  What one producer does to the data vectors of the store in the loop of
  \<open>Process\<close>: nothing; make sure a data vector of a name exists (the
  conversion raised after the lookup); or put POD values into the data vector of
  a name.
\<close>

datatype 'v effect = Skip | Ensure string string | Put string string "'v list"

definition effect_of ::
  "('r JFactory \<Rightarrow> (type_index \<times> string) option) \<Rightarrow> ('r \<Rightarrow> string + 'v) \<Rightarrow> 'v EICRootWriter \<Rightarrow>
   'r JFactory \<Rightarrow> 'v effect" where
  "effect_of glue native writer fac =
     (if GetNumObjects fac = 0 then Skip
      else case glue fac of
        None \<Rightarrow> Skip
      | Some (T, valueTypeName) \<Rightarrow>
          (if bail_early writer (DeriveCollectionName T valueTypeName fac) then Skip
           else (case collect native (GetAs fac T) of
              Inl what \<Rightarrow> Ensure (DeriveCollectionName T valueTypeName fac) valueTypeName
            | Inr pods \<Rightarrow> Put (DeriveCollectionName T valueTypeName fac) valueTypeName pods)))"

fun apply_effect :: "'v effect \<Rightarrow> 'v DataVector list \<Rightarrow> 'v DataVector list" where
  "apply_effect Skip dvs = dvs"
| "apply_effect (Ensure n cn) [] = [\<lparr>name = n, className = cn, storage = []\<rparr>]"
| "apply_effect (Ensure n cn) (d # dvs) =
     (if name d = n then d # dvs else d # apply_effect (Ensure n cn) dvs)"
| "apply_effect (Put n cn pods) [] = [\<lparr>name = n, className = cn, storage = pods\<rparr>]"
| "apply_effect (Put n cn pods) (d # dvs) =
     (if name d = n then d\<lparr>storage := pods\<rparr> # dvs else d # apply_effect (Put n cn pods) dvs)"

fun targets :: "'v effect \<Rightarrow> string \<Rightarrow> bool" where
  "targets Skip n = False"
| "targets (Ensure m cn) n = (m = n)"
| "targets (Put m cn pods) n = (m = n)"

fun update_dv :: "'v effect \<Rightarrow> 'v DataVector \<Rightarrow> 'v DataVector" where
  "update_dv (Put m cn pods) d = (if name d = m then d\<lparr>storage := pods\<rparr> else d)"
| "update_dv e d = d"

fun last_put :: "'v effect list \<Rightarrow> string \<Rightarrow> 'v list option" where
  "last_put [] n = None"
| "last_put (e # es) n =
     (case last_put es n of
        Some pods \<Rightarrow> Some pods
      | None \<Rightarrow> (case e of Put m cn pods \<Rightarrow> if m = n then Some pods else None | _ \<Rightarrow> None))"

section \<open>Example producers\<close>

text \<open>
  Two producers of natural numbers used in the examples below, with the identity
  as conversion to the POD value: \<open>facA\<close> holds one object and \<open>facB\<close> two.
  The dispatch table \<open>glue_by_type\<close> takes the type of the factory as \<open>T\<close>.
\<close>

definition facA :: "nat JFactory" where
  "facA = \<lparr>GetTag = [], GetObjectName = ''A'', GetObjectType = ''A'', GetNumObjects = 1,
           GetAs = (\<lambda>T. [1])\<rparr>"

definition facB :: "nat JFactory" where
  "facB = \<lparr>GetTag = [], GetObjectName = ''B'', GetObjectType = ''B'', GetNumObjects = 2,
           GetAs = (\<lambda>T. [2, 3])\<rparr>"

definition glue_by_type :: "nat JFactory \<Rightarrow> (type_index \<times> string) option" where
  "glue_by_type fac = Some (GetObjectType fac, ''D'')"

text \<open>A conversion that raises on the object 2.\<close>

definition rejects_two :: "nat \<Rightarrow> string + nat" where
  "rejects_two r = (if r = 2 then Inl ''bad conversion'' else Inr r)"

section \<open>Lemmas about the store\<close>

lemma find_datavector_Some:
  "find_datavector n dvs = Some i \<Longrightarrow> i < length dvs \<and> name (dvs ! i) = n"
  by (induction dvs arbitrary: i) (auto split: if_splits option.splits)

lemma find_datavector_None: "(find_datavector n dvs = None) = (n \<notin> name ` set dvs)"
  by (induction dvs) (auto split: option.splits)

lemma collect_map: "collect native v = Inr pods \<Longrightarrow> map Inr pods = map native v"
  by (induction v arbitrary: pods) (auto split: sum.splits)

lemma find_datavector_append:
  "find_datavector n (dvs @ dvs') =
     (case find_datavector n dvs of Some i \<Rightarrow> Some i
      | None \<Rightarrow> (case find_datavector n dvs' of Some i \<Rightarrow> Some (length dvs + i) | None \<Rightarrow> None))"
  by (induction dvs) (auto split: option.splits)

lemma find_datavector_update:
  "name d = name (dvs ! i) \<Longrightarrow> find_datavector n (dvs[i := d]) = find_datavector n dvs"
  by (induction dvs arbitrary: i) (auto split: option.splits nat.splits)

section \<open>Lemmas about the tree and the writer\<close>

lemma TBranch_Fill_funpow:
  "(TBranch_Fill ^^ k) b = b\<lparr>baskets := baskets b @ replicate k (address b)\<rparr>"
  by (induction k) (simp_all add: TBranch_Fill_def replicate_append_same)

lemma CreateBranch_tree:
  "m_datatree (CreateBranch dv writer) =
     (m_datatree writer)\<lparr>branches := branches (m_datatree writer) @
        [\<lparr>branch_name = name dv, branch_className = className dv, address = storage dv,
          baskets = replicate (GetEntries (m_datatree writer)) []\<rparr>]\<rparr>"
  by (simp add: CreateBranch_def Let_def TTree_Branch_def SetAddress_def MakeDataVector_def
      TBranch_Fill_funpow)

lemma CreateBranch_fields:
  "m_OUTPUT_INCLUDE_COLLECTIONS (CreateBranch dv writer) = m_OUTPUT_INCLUDE_COLLECTIONS writer"
  "m_OUTPUT_EXCLUDE_COLLECTIONS (CreateBranch dv writer) = m_OUTPUT_EXCLUDE_COLLECTIONS writer"
  "m_collectionIDtable (CreateBranch dv writer) = m_collectionIDtable writer"
  "m_evtMDtree (CreateBranch dv writer) = m_evtMDtree writer"
  "m_collection_branches (CreateBranch dv writer) = (m_collection_branches writer)(name dv \<mapsto> className dv)"
  by (simp_all add: CreateBranch_def Let_def)

lemma SetAddress_simps [simp]:
  "branch_name (SetAddress a b) = branch_name b"
  "baskets (SetAddress a b) = baskets b"
  "address (SetAddress a b) = a"
  by (simp_all add: SetAddress_def)

lemma SetBranchAddress_entries [simp]: "GetEntries (SetBranchAddress n a t) = GetEntries t"
  by (simp add: SetBranchAddress_def)

lemma rebind_all: "list_all (\<lambda>b. length (baskets b) = k) (map (\<lambda>b. if branch_name b = n then SetAddress a b else b) bs)
   = list_all (\<lambda>b. length (baskets b) = k) bs"
  by (induction bs) simp_all

lemma SetBranchAddress_aligned [simp]: "rows_aligned (SetBranchAddress n a t) = rows_aligned t"
  by (simp add: SetBranchAddress_def rows_aligned_def rebind_all)

lemma rebind_other:
  "n \<noteq> m \<Longrightarrow> filter (\<lambda>b. branch_name b = m) (map (\<lambda>b. if branch_name b = n then SetAddress a b else b) bs)
     = filter (\<lambda>b. branch_name b = m) bs"
  by (induction bs) simp_all

lemma rebind_names:
  "map branch_name (map (\<lambda>b. if branch_name b = n then SetAddress a b else b) bs) = map branch_name bs"
  by (induction bs) simp_all

lemma SetBranchAddress_other:
  "n \<noteq> m \<Longrightarrow> filter (\<lambda>b. branch_name b = m) (branches (SetBranchAddress n a t))
     = filter (\<lambda>b. branch_name b = m) (branches t)"
  by (simp add: SetBranchAddress_def rebind_other)

lemma SetBranchAddress_names [simp]:
  "map branch_name (branches (SetBranchAddress n a t)) = map branch_name (branches t)"
  by (simp add: SetBranchAddress_def rebind_names)

lemma CreateBranch_entries [simp]:
  "GetEntries (m_datatree (CreateBranch dv writer)) = GetEntries (m_datatree writer)"
  by (simp add: CreateBranch_tree)

lemma CreateBranch_aligned:
  "rows_aligned (m_datatree (CreateBranch dv writer)) = rows_aligned (m_datatree writer)"
  by (simp add: CreateBranch_tree rows_aligned_def)

lemma CreateBranch_other:
  "name dv \<noteq> m \<Longrightarrow> filter (\<lambda>b. branch_name b = m) (branches (m_datatree (CreateBranch dv writer)))
     = filter (\<lambda>b. branch_name b = m) (branches (m_datatree writer))"
  by (simp add: CreateBranch_tree)

lemma CreateBranch_names:
  "map branch_name (branches (m_datatree (CreateBranch dv writer))) =
     map branch_name (branches (m_datatree writer)) @ [name dv]"
  by (simp add: CreateBranch_tree)

lemma ResetBranch_filters:
  "m_OUTPUT_INCLUDE_COLLECTIONS (ResetBranch dv writer) = m_OUTPUT_INCLUDE_COLLECTIONS writer"
  "m_OUTPUT_EXCLUDE_COLLECTIONS (ResetBranch dv writer) = m_OUTPUT_EXCLUDE_COLLECTIONS writer"
  by (simp_all add: ResetBranch_def Let_def CreateBranch_fields)

lemma ResetBranch_evtMD:
  "m_evtMDtree (ResetBranch dv writer) = m_evtMDtree writer"
  by (simp add: ResetBranch_def Let_def CreateBranch_fields)

lemma ResetBranch_entries:
  "GetEntries (m_datatree (ResetBranch dv writer)) = GetEntries (m_datatree writer)"
  by (simp add: ResetBranch_def Let_def)

lemma ResetBranch_aligned:
  "rows_aligned (m_datatree writer) \<Longrightarrow> rows_aligned (m_datatree (ResetBranch dv writer))"
  by (simp add: ResetBranch_def Let_def CreateBranch_aligned)

lemma ResetBranch_filtered: "filtered writer (name dv) \<Longrightarrow> ResetBranch dv writer = writer"
  by (auto simp: filtered_def ResetBranch_def)

lemma add_other:
  "n \<noteq> m \<Longrightarrow> present (add t n) m = present t m"
  "n \<noteq> m \<Longrightarrow> collectionID (add t n) m = collectionID t m"
  by (auto simp: present_def add_def collectionID_def map_add_def split: option.splits)

lemma ResetBranch_other_name:
  assumes "name dv \<noteq> n"
  shows "filter (\<lambda>b. branch_name b = n) (branches (m_datatree (ResetBranch dv writer))) =
           filter (\<lambda>b. branch_name b = n) (branches (m_datatree writer))"
    and "m_collection_branches (ResetBranch dv writer) n = m_collection_branches writer n"
    and "present (m_collectionIDtable (ResetBranch dv writer)) n = present (m_collectionIDtable writer) n"
    and "collectionID (m_collectionIDtable (ResetBranch dv writer)) n = collectionID (m_collectionIDtable writer) n"
  using assms
  by (simp_all add: ResetBranch_def Let_def CreateBranch_fields SetBranchAddress_other
      CreateBranch_other add_other)


lemma fold_ResetBranch_keeps:
  "m_OUTPUT_INCLUDE_COLLECTIONS (fold ResetBranch dvs writer) = m_OUTPUT_INCLUDE_COLLECTIONS writer
   \<and> m_OUTPUT_EXCLUDE_COLLECTIONS (fold ResetBranch dvs writer) = m_OUTPUT_EXCLUDE_COLLECTIONS writer
   \<and> m_evtMDtree (fold ResetBranch dvs writer) = m_evtMDtree writer
   \<and> GetEntries (m_datatree (fold ResetBranch dvs writer)) = GetEntries (m_datatree writer)"
  by (induction dvs arbitrary: writer)
     (simp_all add: ResetBranch_filters ResetBranch_evtMD ResetBranch_entries)

lemma ResetBranches_keeps [simp]:
  "m_OUTPUT_INCLUDE_COLLECTIONS (ResetBranches store writer) = m_OUTPUT_INCLUDE_COLLECTIONS writer"
  "m_OUTPUT_EXCLUDE_COLLECTIONS (ResetBranches store writer) = m_OUTPUT_EXCLUDE_COLLECTIONS writer"
  "m_evtMDtree (ResetBranches store writer) = m_evtMDtree writer"
  "GetEntries (m_datatree (ResetBranches store writer)) = GetEntries (m_datatree writer)"
  by (simp_all add: ResetBranches_def fold_ResetBranch_keeps)

lemma filtered_cong:
  "m_OUTPUT_INCLUDE_COLLECTIONS w' = m_OUTPUT_INCLUDE_COLLECTIONS w \<Longrightarrow>
   m_OUTPUT_EXCLUDE_COLLECTIONS w' = m_OUTPUT_EXCLUDE_COLLECTIONS w \<Longrightarrow> filtered w' n = filtered w n"
  by (simp add: filtered_def)

lemma fold_ResetBranch_aligned:
  "rows_aligned (m_datatree writer) \<Longrightarrow> rows_aligned (m_datatree (fold ResetBranch dvs writer))"
  by (induction dvs arbitrary: writer) (simp_all add: ResetBranch_aligned)

lemma ResetBranches_aligned:
  "rows_aligned (m_datatree writer) \<Longrightarrow> rows_aligned (m_datatree (ResetBranches store writer))"
  by (simp add: ResetBranches_def fold_ResetBranch_aligned)

lemma fold_ResetBranch_frame:
  "filtered writer n \<Longrightarrow>
     filter (\<lambda>b. branch_name b = n) (branches (m_datatree (fold ResetBranch dvs writer))) =
       filter (\<lambda>b. branch_name b = n) (branches (m_datatree writer))
   \<and> m_collection_branches (fold ResetBranch dvs writer) n = m_collection_branches writer n
   \<and> present (m_collectionIDtable (fold ResetBranch dvs writer)) n = present (m_collectionIDtable writer) n
   \<and> collectionID (m_collectionIDtable (fold ResetBranch dvs writer)) n = collectionID (m_collectionIDtable writer) n"
proof (induction dvs arbitrary: writer)
  case Nil
  show ?case by simp
next
  case (Cons dv dvs)
  show ?case
  proof (cases "name dv = n")
    case True
    with Cons.prems have "ResetBranch dv writer = writer"
      by (simp add: ResetBranch_filtered)
    with Cons show ?thesis by simp
  next
    case False
    have "filtered (ResetBranch dv writer) n"
      using Cons.prems by (simp add: filtered_cong [OF ResetBranch_filters])
    from Cons.IH [OF this] show ?thesis
      by (simp add: ResetBranch_other_name [OF False])
  qed
qed

lemma filter_name_empty:
  "(filter (\<lambda>b. branch_name b = n) bs = []) = (n \<notin> branch_name ` set bs)"
  by (induction bs) auto

lemma filter_name_mem:
  "filter (\<lambda>b. branch_name b = n) bs = filter (\<lambda>b. branch_name b = n) bs' \<Longrightarrow>
     (n \<in> branch_name ` set bs) = (n \<in> branch_name ` set bs')"
  by (metis filter_name_empty)

lemma TTree_Fill_props [simp]:
  "GetEntries (TTree_Fill t) = Suc (GetEntries t)"
  "branch_name ` set (branches (TTree_Fill t)) = branch_name ` set (branches t)"
  by (simp_all add: TTree_Fill_def TBranch_Fill_def image_image)

lemma TTree_Fill_aligned: "rows_aligned t \<Longrightarrow> rows_aligned (TTree_Fill t)"
  by (simp add: TTree_Fill_def TBranch_Fill_def rows_aligned_def list_all_iff)

lemma Process_writer:
  "fst (Process glue native writer event) =
     (let store = fst (put_factories glue native writer (GetAllFactories event)
                        (case GetSingle_EICEventStore event of
                           Some other \<Rightarrow> \<lparr>m_datavectors = m_datavectors other\<rparr>
                         | None \<Rightarrow> \<lparr>m_datavectors = []\<rparr>, []));
          writer' = ResetBranches store writer
      in writer'\<lparr>m_datatree := TTree_Fill (m_datatree writer'),
                 m_evtMDtree := Suc (m_evtMDtree writer')\<rparr>)"
  by (simp add: Process_def Let_def Swap_def split: option.splits prod.splits)

lemma Process_keeps [simp]:
  "m_OUTPUT_INCLUDE_COLLECTIONS (fst (Process glue native writer event)) = m_OUTPUT_INCLUDE_COLLECTIONS writer"
  "m_OUTPUT_EXCLUDE_COLLECTIONS (fst (Process glue native writer event)) = m_OUTPUT_EXCLUDE_COLLECTIONS writer"
  "GetEntries (m_datatree (fst (Process glue native writer event))) = Suc (GetEntries (m_datatree writer))"
  "m_evtMDtree (fst (Process glue native writer event)) = Suc (m_evtMDtree writer)"
  by (simp_all add: Process_writer Let_def)

lemma Process_aligned:
  "rows_aligned (m_datatree writer) \<Longrightarrow> rows_aligned (m_datatree (fst (Process glue native writer event)))"
  by (simp add: Process_writer Let_def TTree_Fill_aligned ResetBranches_aligned)

lemma Process_frame:
  assumes "filtered writer n"
  shows "(n \<in> branch_name ` set (branches (m_datatree (fst (Process glue native writer event)))))
           = (n \<in> branch_name ` set (branches (m_datatree writer)))"
    and "m_collection_branches (fst (Process glue native writer event)) n = m_collection_branches writer n"
    and "present (m_collectionIDtable (fst (Process glue native writer event))) n
           = present (m_collectionIDtable writer) n"
proof -
  let ?store = "fst (put_factories glue native writer (GetAllFactories event)
                        (case GetSingle_EICEventStore event of
                           Some other \<Rightarrow> \<lparr>m_datavectors = m_datavectors other\<rparr>
                         | None \<Rightarrow> \<lparr>m_datavectors = []\<rparr>, []))"
  note fr = fold_ResetBranch_frame [OF assms, of "m_datavectors ?store", folded ResetBranches_def]
  have "(n \<in> branch_name ` set (branches (m_datatree (ResetBranches ?store writer))))
           = (n \<in> branch_name ` set (branches (m_datatree writer)))"
    using fr by (intro filter_name_mem) simp
  then show "(n \<in> branch_name ` set (branches (m_datatree (fst (Process glue native writer event)))))
           = (n \<in> branch_name ` set (branches (m_datatree writer)))"
    by (simp add: Process_writer Let_def)
  show "m_collection_branches (fst (Process glue native writer event)) n = m_collection_branches writer n"
    using fr by (simp add: Process_writer Let_def)
  show "present (m_collectionIDtable (fst (Process glue native writer event))) n
           = present (m_collectionIDtable writer) n"
    using fr by (simp add: Process_writer Let_def)
qed

lemma Process_all_keeps [simp]:
  "m_OUTPUT_INCLUDE_COLLECTIONS (Process_all glue native writer events) = m_OUTPUT_INCLUDE_COLLECTIONS writer"
  "m_OUTPUT_EXCLUDE_COLLECTIONS (Process_all glue native writer events) = m_OUTPUT_EXCLUDE_COLLECTIONS writer"
  "GetEntries (m_datatree (Process_all glue native writer events)) = GetEntries (m_datatree writer) + length events"
  by (induction events arbitrary: writer; simp)+

lemma Process_all_aligned:
  "rows_aligned (m_datatree writer) \<Longrightarrow> rows_aligned (m_datatree (Process_all glue native writer events))"
  by (induction events arbitrary: writer) (simp_all add: Process_aligned)

lemma Process_all_frame:
  "filtered writer n \<Longrightarrow>
     (n \<in> branch_name ` set (branches (m_datatree (Process_all glue native writer events))))
           = (n \<in> branch_name ` set (branches (m_datatree writer)))
     \<and> m_collection_branches (Process_all glue native writer events) n = m_collection_branches writer n
     \<and> present (m_collectionIDtable (Process_all glue native writer events)) n
           = present (m_collectionIDtable writer) n"
proof (induction events arbitrary: writer)
  case Nil
  show ?case by simp
next
  case (Cons event events)
  have "filtered (fst (Process glue native writer event)) n"
    using Cons.prems by (simp add: filtered_def)
  from Cons.IH [OF this] show ?case
    by (simp add: Process_frame [OF Cons.prems])
qed

lemma Init_fields [simp]:
  "m_datatree (Init i e) = \<lparr>branches = [], GetEntries = 0\<rparr>"
  "m_collection_branches (Init i e) = Map.empty"
  "m_collectionIDtable (Init i e) = []"
  "m_OUTPUT_INCLUDE_COLLECTIONS (Init i e) = parse_collections i"
  "m_OUTPUT_EXCLUDE_COLLECTIONS (Init i e) = parse_collections e"
  by (simp_all add: Init_def)

lemmas eval_defs = Process_def Let_def Swap_def PutPODIOData_def PutPODIODataT_def bail_early_def
  GetExcludeCollections_def DeriveCollectionName_def ResetBranches_def ResetBranch_def
  CreateBranch_tree CreateBranch_fields SetBranchAddress_def SetAddress_def TTree_Fill_def
  TBranch_Fill_def present_def add_def parse_collections_def facA_def facB_def glue_by_type_def

section \<open>Lemmas about the configuration strings\<close>

lemma fields_not_Nil: "comma_fields ss \<noteq> []"
  by (induction ss) (auto split: list.splits)

lemma getline_fields:
  "comma_fields ss = (case getline ss (CHR '','') of (f, rest, g) \<Rightarrow> if g then f # comma_fields rest else [f])"
  by (induction ss) (auto split: prod.splits list.splits)

lemma insert_collections_fields: "insert_collections ss acc = set (comma_fields ss) \<union> acc"
proof (induction ss acc rule: insert_collections.induct)
  case (1 ss collections)
  obtain f rest g where g: "getline ss (CHR '','') = (f, rest, g)"
    by (cases "getline ss (CHR '','')") auto
  show ?case
  proof (cases g)
    case True
    with 1 g have "insert_collections rest (insert f collections) = set (comma_fields rest) \<union> insert f collections"
      by simp
    with g True show ?thesis
      by (subst insert_collections.simps, subst getline_fields) simp
  next
    case False
    with g show ?thesis
      by (subst insert_collections.simps, subst getline_fields) simp
  qed
qed

lemma fields_trailing_comma: "\<exists>f fs. comma_fields (xs @ '','') = f # fs @ [[]]"
  by (induction xs) (auto split: list.splits)

lemma fields_double_comma: "[] \<in> set (tl (comma_fields (xs @ '',,'' @ ys)))"
proof (induction xs)
  case Nil
  show ?case by simp
next
  case (Cons c xs)
  then show ?case
    by (auto split: list.splits dest: list.set_sel(2) [rotated])
qed

lemma parse_collections_empty_name:
  assumes "str \<noteq> []" and "last str = CHR '','' \<or> (\<exists>xs ys. str = xs @ '',,'' @ ys)"
  shows "[] \<in> parse_collections str"
proof -
  have "[] \<in> set (comma_fields str)"
    using assms(2)
  proof
    assume "last str = CHR '',''"
    with assms(1) have "str = butlast str @ '',''"
      by (metis append_butlast_last_id)
    then obtain f fs where "comma_fields str = f # fs @ [[]]"
      using fields_trailing_comma [of "butlast str"] by auto
    then show ?thesis by simp
  next
    assume "\<exists>xs ys. str = xs @ '',,'' @ ys"
    then obtain xs ys where "str = xs @ '',,'' @ ys" by blast
    with fields_double_comma [of xs ys] show ?thesis
      by (metis fields_not_Nil list.set_sel(2))
  qed
  with assms(1) show ?thesis
    by (simp add: parse_collections_def insert_collections_fields del: insert_collections.simps)
qed

section \<open>Lemmas about the collection ID table\<close>

lemma add_present [simp]: "present (add t n) n"
  by (simp add: add_def present_def)

lemma add_when_present: "present t n \<Longrightarrow> add t n = t"
  by (simp add: add_def)

lemma add_keeps_id: "present t m \<Longrightarrow> collectionID (add t n) m = collectionID t m"
  by (auto simp: add_def collectionID_def present_def map_add_def split: option.splits
      dest: weak_map_of_SomeI)

lemma add_keeps_present: "present t m \<Longrightarrow> present (add t n) m"
  by (auto simp: add_def present_def)

lemma add_in_order: "ids_in_order t \<Longrightarrow> ids_in_order (add t n)"
  by (auto simp: ids_in_order_def add_def present_def)

lemma ResetBranch_table:
  "m_collectionIDtable (ResetBranch dv writer) =
     (if filtered writer (name dv) then m_collectionIDtable writer
      else add (m_collectionIDtable writer) (name dv))"
  by (auto simp: ResetBranch_def filtered_def Let_def CreateBranch_fields add_def)

lemma table_step:
  "m_collectionIDtable (ResetBranch dv writer) = m_collectionIDtable writer
   \<or> m_collectionIDtable (ResetBranch dv writer) = add (m_collectionIDtable writer) (name dv)"
  by (simp add: ResetBranch_table)

lemma fold_ResetBranch_table:
  "(present (m_collectionIDtable writer) m \<longrightarrow>
      present (m_collectionIDtable (fold ResetBranch dvs writer)) m
      \<and> collectionID (m_collectionIDtable (fold ResetBranch dvs writer)) m
          = collectionID (m_collectionIDtable writer) m)
   \<and> (ids_in_order (m_collectionIDtable writer) \<longrightarrow>
        ids_in_order (m_collectionIDtable (fold ResetBranch dvs writer)))
   \<and> (\<exists>new. m_collectionIDtable (fold ResetBranch dvs writer) = m_collectionIDtable writer @ new)"
proof (induction dvs arbitrary: writer)
  case Nil
  show ?case by simp
next
  case (Cons dv dvs)
  have "\<exists>new. m_collectionIDtable (ResetBranch dv writer) = m_collectionIDtable writer @ new"
    by (simp add: ResetBranch_table add_def)
  with Cons [of "ResetBranch dv writer"] show ?case
    by (auto simp: ResetBranch_table add_keeps_id add_keeps_present add_in_order)
qed

lemma fold_ResetBranch_registers:
  "dv \<in> set dvs \<Longrightarrow> filtered writer (name dv)
     \<or> present (m_collectionIDtable (fold ResetBranch dvs writer)) (name dv)"
proof (induction dvs arbitrary: writer)
  case Nil
  then show ?case by simp
next
  case (Cons d dvs)
  show ?case
  proof (cases "dv = d")
    case True
    show ?thesis
    proof (cases "filtered writer (name dv)")
      case False
      then have "present (m_collectionIDtable (ResetBranch d writer)) (name dv)"
        using True by (simp add: ResetBranch_table)
      then show ?thesis
        using fold_ResetBranch_table [of "ResetBranch d writer" "name dv" dvs] by simp
    qed simp
  next
    case False
    with Cons.prems have "dv \<in> set dvs" by simp
    from Cons.IH [OF this, of "ResetBranch d writer"] show ?thesis
      by (simp add: filtered_cong [OF ResetBranch_filters])
  qed
qed

lemma fold_ResetBranch_table_fixed:
  "\<forall>dv \<in> set dvs. filtered writer (name dv) \<or> present (m_collectionIDtable writer) (name dv) \<Longrightarrow>
     m_collectionIDtable (fold ResetBranch dvs writer) = m_collectionIDtable writer"
proof (induction dvs arbitrary: writer)
  case Nil
  show ?case by simp
next
  case (Cons d dvs)
  have t: "m_collectionIDtable (ResetBranch d writer) = m_collectionIDtable writer"
    using Cons.prems by (auto simp: ResetBranch_table add_when_present)
  have "\<forall>dv \<in> set dvs. filtered (ResetBranch d writer) (name dv)
          \<or> present (m_collectionIDtable (ResetBranch d writer)) (name dv)"
    using Cons.prems by (simp add: t filtered_cong [OF ResetBranch_filters])
  from Cons.IH [OF this] show ?case by (simp add: t)
qed

lemma ResetBranches_table_idem:
  "m_collectionIDtable (ResetBranches store (ResetBranches store writer))
     = m_collectionIDtable (ResetBranches store writer)"
  unfolding ResetBranches_def
proof (rule fold_ResetBranch_table_fixed, rule ballI)
  fix dv assume "dv \<in> set (m_datavectors store)"
  from fold_ResetBranch_registers [OF this, of writer]
  show "filtered (fold ResetBranch (m_datavectors store) writer) (name dv) \<or>
          present (m_collectionIDtable (fold ResetBranch (m_datavectors store) writer)) (name dv)"
    by (simp add: filtered_cong [of "fold ResetBranch (m_datavectors store) writer" writer]
        fold_ResetBranch_keeps)
qed

lemma Process_table:
  "(present (m_collectionIDtable writer) m \<longrightarrow>
      present (m_collectionIDtable (fst (Process glue native writer event))) m
      \<and> collectionID (m_collectionIDtable (fst (Process glue native writer event))) m
          = collectionID (m_collectionIDtable writer) m)
   \<and> (ids_in_order (m_collectionIDtable writer) \<longrightarrow>
        ids_in_order (m_collectionIDtable (fst (Process glue native writer event))))
   \<and> (\<exists>new. m_collectionIDtable (fst (Process glue native writer event)) = m_collectionIDtable writer @ new)"
  using fold_ResetBranch_table [of writer m]
  by (simp add: Process_writer Let_def ResetBranches_def)

lemma Process_all_table:
  "(present (m_collectionIDtable writer) m \<longrightarrow>
      present (m_collectionIDtable (Process_all glue native writer events)) m
      \<and> collectionID (m_collectionIDtable (Process_all glue native writer events)) m
          = collectionID (m_collectionIDtable writer) m)
   \<and> (ids_in_order (m_collectionIDtable writer) \<longrightarrow>
        ids_in_order (m_collectionIDtable (Process_all glue native writer events)))
   \<and> (\<exists>new. m_collectionIDtable (Process_all glue native writer events) = m_collectionIDtable writer @ new)"
proof (induction events arbitrary: writer)
  case Nil
  show ?case by simp
next
  case (Cons event events)
  from Cons [of "fst (Process glue native writer event)"] Process_table [of writer m glue native event]
  show ?case by auto
qed

section \<open>Lemmas about the loop over the factories\<close>

lemma find_datavector_Some_mem: "find_datavector n dvs = Some i \<Longrightarrow> n \<in> name ` set dvs"
  using find_datavector_None [of n dvs] by auto

lemma put_as_effect:
  "(case find_datavector n dvs of
      Some i \<Rightarrow> dvs[i := (dvs ! i)\<lparr>storage := pods\<rparr>]
    | None \<Rightarrow> dvs @ [\<lparr>name = n, className = cn, storage = pods\<rparr>]) = apply_effect (Put n cn pods) dvs"
  by (induction dvs) (auto split: option.splits)

lemma ensure_as_effect:
  "(case find_datavector n dvs of
      Some i \<Rightarrow> dvs
    | None \<Rightarrow> dvs @ [\<lparr>name = n, className = cn, storage = []\<rparr>]) = apply_effect (Ensure n cn) dvs"
  by (induction dvs) (auto split: option.splits)

lemma PutPODIODataT_store:
  "fst (PutPODIODataT T valueTypeName native writer fac store) =
     (let n = DeriveCollectionName T valueTypeName fac in
      if bail_early writer n then store
      else case collect native (GetAs fac T) of
         Inl what \<Rightarrow> store\<lparr>m_datavectors := apply_effect (Ensure n valueTypeName) (m_datavectors store)\<rparr>
       | Inr pods \<Rightarrow> store\<lparr>m_datavectors := apply_effect (Put n valueTypeName pods) (m_datavectors store)\<rparr>)"
  by (auto simp: PutPODIODataT_def Let_def put_as_effect [symmetric] ensure_as_effect [symmetric]
      split: option.splits sum.splits)

lemma PutPODIOData_effect:
  "GetNumObjects fac \<noteq> 0 \<Longrightarrow>
     fst (PutPODIOData glue native writer fac store) =
       store\<lparr>m_datavectors := apply_effect (effect_of glue native writer fac) (m_datavectors store)\<rparr>"
  by (auto simp: PutPODIOData_def effect_of_def PutPODIODataT_store Let_def split: option.splits sum.splits)

lemma put_factories_effects:
  "fst (put_factories glue native writer facs (store, cerr)) =
     store\<lparr>m_datavectors := fold apply_effect (map (effect_of glue native writer) facs) (m_datavectors store)\<rparr>"
proof (induction facs arbitrary: store cerr)
  case Nil
  show ?case by simp
next
  case (Cons fac facs)
  show ?case
  proof (cases "GetNumObjects fac = 0")
    case True
    then show ?thesis by (simp add: Cons effect_of_def)
  next
    case False
    obtain store' r where p: "PutPODIOData glue native writer fac store = (store', r)"
      by (cases "PutPODIOData glue native writer fac store") auto
    with PutPODIOData_effect [OF False, of glue native writer store]
    have s: "store' = store\<lparr>m_datavectors := apply_effect (effect_of glue native writer fac) (m_datavectors store)\<rparr>"
      by simp
    show ?thesis
      using False p by (cases r) (simp_all add: Cons s)
  qed
qed

lemma update_dv_name [simp]: "name (update_dv e d) = name d"
  by (cases e) simp_all

lemma update_dv_className [simp]: "className (update_dv e d) = className d"
  by (cases e) simp_all

lemma update_dv_not_target: "\<not> targets e (name d) \<Longrightarrow> update_dv e d = d"
  by (cases e) simp_all

lemma apply_effect_Cons:
  "apply_effect e (d # dvs) =
     (if targets e (name d) then update_dv e d # dvs else d # apply_effect e dvs)"
  by (cases e) auto

lemma fold_update_dv:
  "fold update_dv es d = (case last_put es (name d) of None \<Rightarrow> d | Some pods \<Rightarrow> d\<lparr>storage := pods\<rparr>)"
proof (induction es arbitrary: d)
  case Nil
  show ?case by simp
next
  case (Cons e es)
  show ?case
    by (cases e) (auto simp: Cons split: option.splits)
qed

lemma fold_update_dv_name [simp]: "name (fold update_dv es d) = name d"
  by (simp add: fold_update_dv split: option.splits)

lemma fold_update_dv_idem: "fold update_dv es (fold update_dv es d) = fold update_dv es d"
  by (simp add: fold_update_dv split: option.splits)

lemma fold_update_dv_storage:
  "fold update_dv es ((fold update_dv es d)\<lparr>storage := pods\<rparr>) = fold update_dv es (d\<lparr>storage := pods\<rparr>)"
  by (simp add: fold_update_dv split: option.splits)

lemma fold_apply_effect_Cons:
  "fold apply_effect es (d # dvs) =
     fold update_dv es d # fold apply_effect (filter (\<lambda>e. \<not> targets e (name d)) es) dvs"
proof (induction es arbitrary: d dvs)
  case Nil
  show ?case by simp
next
  case (Cons e es)
  show ?case
    by (simp add: apply_effect_Cons Cons update_dv_not_target)
qed

lemma fold_apply_effect_idem:
  "fold apply_effect es (fold apply_effect es dvs) = fold apply_effect es dvs"
proof (induction "length es + length dvs" arbitrary: es dvs rule: less_induct)
  case less
  show ?case
  proof (cases dvs)
    case (Cons d ds)
    let ?es' = "filter (\<lambda>e. \<not> targets e (name d)) es"
    have "length ?es' + length ds < length es + length dvs"
      using Cons by (simp add: le_imp_less_Suc)
    from less [OF this] show ?thesis
      by (simp add: Cons fold_apply_effect_Cons fold_update_dv_idem)
  next
    case Nil
    show ?thesis
    proof (cases es)
      case Nil
      then show ?thesis by simp
    next
      case (Cons e es')
      show ?thesis
      proof (cases "e = Skip")
        case True
        have "length es' + length dvs < length es + length dvs"
          using Cons by simp
        from less [OF this] show ?thesis
          by (simp add: Cons True)
      next
        case False
        then obtain n d0 where d0: "apply_effect e [] = [d0]" "name d0 = n" "targets e n"
          "update_dv e (fold update_dv es' d0) = fold update_dv es' d0 \<or>
             (\<exists>pods. e = Put n (className d0) pods \<and> d0 = \<lparr>name = n, className = className d0, storage = pods\<rparr>)"
          by (cases e) auto
        let ?es' = "filter (\<lambda>e. \<not> targets e n) es'"
        have "length ?es' \<le> length es'"
          by (rule length_filter_le)
        then have "length ?es' + length ([] :: 'a DataVector list) < length es + length dvs"
          using Cons by (simp del: length_filter_le)
        from less [OF this]
        have ih: "fold apply_effect ?es' (fold apply_effect ?es' []) = fold apply_effect ?es' []" .
        have u: "fold update_dv es' (update_dv e (fold update_dv es' d0)) = fold update_dv es' d0"
          using d0(4)
        proof
          assume "update_dv e (fold update_dv es' d0) = fold update_dv es' d0"
          then show ?thesis by (simp add: fold_update_dv_idem)
        next
          assume "\<exists>pods. e = Put n (className d0) pods \<and> d0 = \<lparr>name = n, className = className d0, storage = pods\<rparr>"
          then obtain pods where e: "e = Put n (className d0) pods"
            and d: "d0 = \<lparr>name = n, className = className d0, storage = pods\<rparr>" by blast
          have "d0\<lparr>storage := pods\<rparr> = d0" by (subst (2) d, subst d) simp
          with fold_update_dv_storage [where es = es' and d = d0 and pods = pods] show ?thesis
            by (simp add: e d0(2))
        qed
        show ?thesis
          using d0(1,2,3) ih u
          by (simp add: Cons Nil fold_apply_effect_Cons apply_effect_Cons)
      qed
    qed
  qed
qed

lemma effect_of_cong:
  assumes "m_OUTPUT_EXCLUDE_COLLECTIONS w' = m_OUTPUT_EXCLUDE_COLLECTIONS w"
  shows "effect_of glue native w' = effect_of glue native w"
proof -
  have b: "bail_early w' = bail_early w"
    by (rule ext) (simp add: bail_early_def GetExcludeCollections_def assms)
  show ?thesis
    by (intro ext) (simp add: effect_of_def b split: option.splits)
qed

lemma Process_event:
  "fst (snd (Process glue native writer event)) =
     event\<lparr>GetSingle_EICEventStore :=
       (case GetSingle_EICEventStore event of
          None \<Rightarrow> None
        | Some other \<Rightarrow>
            Some (other\<lparr>m_datavectors :=
              fold apply_effect (map (effect_of glue native writer) (GetAllFactories event))
                (m_datavectors other)\<rparr>))\<rparr>"
proof (cases "GetSingle_EICEventStore event")
  case None
  then show ?thesis
    by (simp add: Process_def Let_def split: prod.splits)
next
  case (Some other)
  obtain store cerr where p: "put_factories glue native writer (GetAllFactories event)
      (\<lparr>m_datavectors = m_datavectors other\<rparr>, []) = (store, cerr)"
    by (cases "put_factories glue native writer (GetAllFactories event)
      (\<lparr>m_datavectors = m_datavectors other\<rparr>, [])") auto
  from put_factories_effects [of glue native writer "GetAllFactories event"
      "\<lparr>m_datavectors = m_datavectors other\<rparr>" "[]"] p
  have "m_datavectors store = fold apply_effect (map (effect_of glue native writer) (GetAllFactories event))
                (m_datavectors other)"
    by simp
  with Some p show ?thesis
    by (simp add: Process_def Let_def Swap_def)
qed

lemma PutPODIOData_raises:
  assumes "glue fac = Some (T, valueTypeName)"
    and "\<not> bail_early writer (DeriveCollectionName T valueTypeName fac)"
    and "collect native (GetAs fac T) = Inl what"
  shows "PutPODIOData glue native writer fac store =
           (store\<lparr>m_datavectors :=
              (if DeriveCollectionName T valueTypeName fac \<in> name ` set (m_datavectors store)
               then m_datavectors store
               else m_datavectors store @
                 [\<lparr>name = DeriveCollectionName T valueTypeName fac, className = valueTypeName,
                   storage = []\<rparr>])\<rparr>,
            Inl what)"
  using assms
  by (auto simp: PutPODIOData_def PutPODIODataT_def Let_def find_datavector_None
      dest: find_datavector_Some_mem split: option.splits)

lemma put_factories_cerr_mono:
  "set cerr \<subseteq> set (snd (put_factories glue native writer facs (store, cerr)))"
proof (induction facs arbitrary: store cerr)
  case Nil
  show ?case by simp
next
  case (Cons fac facs)
  show ?case
  proof (cases "GetNumObjects fac = 0")
    case True
    then show ?thesis using Cons by simp
  next
    case False
    obtain store' r where p: "PutPODIOData glue native writer fac store = (store', r)"
      by (cases "PutPODIOData glue native writer fac store") auto
    show ?thesis
    proof (cases r)
      case (Inl what)
      with False p Cons [of "cerr @ [what @ '' : '' @ GetObjectName fac]" store'] show ?thesis
        by simp
    next
      case (Inr n)
      with False p Cons [of cerr store'] show ?thesis by simp
    qed
  qed
qed

lemma put_factories_logs:
  assumes "GetNumObjects fac \<noteq> 0" and "glue fac = Some (T, valueTypeName)"
    and "\<not> bail_early writer (DeriveCollectionName T valueTypeName fac)"
    and "collect native (GetAs fac T) = Inl what"
  shows "fac \<in> set facs \<Longrightarrow>
     what @ '' : '' @ GetObjectName fac \<in> set (snd (put_factories glue native writer facs (store, cerr)))"
proof (induction facs arbitrary: store cerr)
  case Nil
  then show ?case by simp
next
  case (Cons f facs)
  show ?case
  proof (cases "f = fac")
    case True
    have "what @ '' : '' @ GetObjectName fac \<in> set (cerr @ [what @ '' : '' @ GetObjectName fac])"
      by simp
    then show ?thesis
      using put_factories_cerr_mono [of "cerr @ [what @ '' : '' @ GetObjectName fac]" glue native writer facs]
        True assms(1)
      by (auto simp: PutPODIOData_raises [where glue = glue and fac = fac and T = T and valueTypeName = valueTypeName and writer = writer and native = native and what = what, OF assms(2-4)])
  next
    case False
    with Cons.prems have m: "fac \<in> set facs" by simp
    obtain store' r where p: "PutPODIOData glue native writer f store = (store', r)"
      by (cases "PutPODIOData glue native writer f store") auto
    show ?thesis
      using Cons.IH [OF m] p by (cases r) (auto)
  qed
qed

lemma Process_cerr:
  "snd (snd (Process glue native writer event)) =
     snd (put_factories glue native writer (GetAllFactories event)
            (case GetSingle_EICEventStore event of
               Some other \<Rightarrow> \<lparr>m_datavectors = m_datavectors other\<rparr>
             | None \<Rightarrow> \<lparr>m_datavectors = []\<rparr>, []))"
  by (simp add: Process_def Let_def Swap_def split: option.splits prod.splits)

section \<open>Column name resolution\<close>

text \<open>
  C3: \<open>DeriveCollectionName\<close> is the rule of the spec: an empty tag gives the
  declared type name of the producer; otherwise the tag when the runtime type of
  the producer is the target type, and the declared type name when it is not.
  The three producers of the spec's scenario resolve to Cluster, merged and
  SpecialCluster.
\<close>

theorem DeriveCollectionName_is_spec_rule:
  "DeriveCollectionName T edm4hep_name fac = spec_column_name T fac
   \<and> DeriveCollectionName T edm4hep_name fac =
       (if GetTag fac = [] then GetObjectName fac
        else if GetObjectType fac = T then GetTag fac
        else GetObjectName fac)
   \<and> DeriveCollectionName ''Cluster'' ''ClusterData''
       \<lparr>GetTag = [], GetObjectName = ''Cluster'', GetObjectType = ''Cluster'',
        GetNumObjects = 1, GetAs = (\<lambda>t. [r])\<rparr> = ''Cluster''
   \<and> DeriveCollectionName ''Cluster'' ''ClusterData''
       \<lparr>GetTag = ''merged'', GetObjectName = ''Cluster'', GetObjectType = ''Cluster'',
        GetNumObjects = 1, GetAs = (\<lambda>t. [r])\<rparr> = ''merged''
   \<and> DeriveCollectionName ''Cluster'' ''ClusterData''
       \<lparr>GetTag = ''merged'', GetObjectName = ''SpecialCluster'', GetObjectType = ''SpecialCluster'',
        GetNumObjects = 1, GetAs = (\<lambda>t. [r])\<rparr> = ''SpecialCluster''"
  by (simp add: DeriveCollectionName_def spec_column_name_def spec_resolution_def)

section \<open>Row alignment of the branches\<close>

text \<open>
  C1: after any sequence of N events processed from \<open>Init\<close>, the tree has N
  entries and every branch of it has exactly N entries. \<open>CreateBranch\<close> on a
  tree with k entries adds a branch that already holds k entries, each read from
  an empty vector, and the fill of the current event puts the row of the event
  after them.
\<close>

theorem backfill_keeps_rows_aligned:
  "GetEntries (m_datatree (Process_all glue native (Init incl excl) events)) = length events
   \<and> (\<forall>b \<in> set (branches (m_datatree (Process_all glue native (Init incl excl) events))).
         length (baskets b) = length events)
   \<and> branches (m_datatree (CreateBranch dv writer)) =
       branches (m_datatree writer) @
         [\<lparr>branch_name = name dv, branch_className = className dv, address = storage dv,
           baskets = replicate (GetEntries (m_datatree writer)) []\<rparr>]
   \<and> baskets (last (branches (TTree_Fill (m_datatree (CreateBranch dv writer))))) =
       replicate (GetEntries (m_datatree writer)) [] @ [storage dv]"
proof -
  let ?w = "Process_all glue native (Init incl excl) events"
  have n: "GetEntries (m_datatree ?w) = length events"
    by simp
  have "rows_aligned (m_datatree (Init incl excl))"
    by (simp add: rows_aligned_def)
  then have "rows_aligned (m_datatree ?w)"
    by (rule Process_all_aligned)
  then have a: "\<forall>b \<in> set (branches (m_datatree ?w)). length (baskets b) = length events"
    by (simp add: rows_aligned_def list_all_iff)
  have c: "baskets (last (branches (TTree_Fill (m_datatree (CreateBranch dv writer))))) =
       replicate (GetEntries (m_datatree writer)) [] @ [storage dv]"
    by (simp add: CreateBranch_tree TTree_Fill_def TBranch_Fill_def)
  show ?thesis
    using n a c by (simp add: CreateBranch_tree)
qed

text \<open>
  The scenario of the spec: the collection B is first seen at event index 5, after
  five events with the collection A only. Its branch then holds five empty rows
  and the row of the event.
\<close>

theorem backfill_keeps_rows_aligned_witness:
  "map (\<lambda>b. (branch_name b, baskets b))
     (branches (m_datatree
        (Process_all glue_by_type Inr (Init [] [])
            [\<lparr>GetAllFactories = [facA], GetSingle_EICEventStore = None\<rparr>,
             \<lparr>GetAllFactories = [facA], GetSingle_EICEventStore = None\<rparr>,
             \<lparr>GetAllFactories = [facA], GetSingle_EICEventStore = None\<rparr>,
             \<lparr>GetAllFactories = [facA], GetSingle_EICEventStore = None\<rparr>,
             \<lparr>GetAllFactories = [facA], GetSingle_EICEventStore = None\<rparr>,
             \<lparr>GetAllFactories = [facA, facB], GetSingle_EICEventStore = None\<rparr>])))
    = [(''A'', [[1], [1], [1], [1], [1], [1]]), (''B'', [[], [], [], [], [], [2, 3]])]
   \<and> list_all (\<lambda>b. length (baskets b) = 6)
     (branches (m_datatree
        (Process_all glue_by_type Inr (Init [] [])
            [\<lparr>GetAllFactories = [facA], GetSingle_EICEventStore = None\<rparr>,
             \<lparr>GetAllFactories = [facA], GetSingle_EICEventStore = None\<rparr>,
             \<lparr>GetAllFactories = [facA], GetSingle_EICEventStore = None\<rparr>,
             \<lparr>GetAllFactories = [facA], GetSingle_EICEventStore = None\<rparr>,
             \<lparr>GetAllFactories = [facA], GetSingle_EICEventStore = None\<rparr>,
             \<lparr>GetAllFactories = [facA, facB], GetSingle_EICEventStore = None\<rparr>])))"
  using backfill_keeps_rows_aligned [of glue_by_type Inr "[]" "[]"
            "[\<lparr>GetAllFactories = [facA], GetSingle_EICEventStore = None\<rparr>,
             \<lparr>GetAllFactories = [facA], GetSingle_EICEventStore = None\<rparr>,
             \<lparr>GetAllFactories = [facA], GetSingle_EICEventStore = None\<rparr>,
             \<lparr>GetAllFactories = [facA], GetSingle_EICEventStore = None\<rparr>,
             \<lparr>GetAllFactories = [facA], GetSingle_EICEventStore = None\<rparr>,
             \<lparr>GetAllFactories = [facA, facB], GetSingle_EICEventStore = None\<rparr>]"]
  by (simp add: eval_defs list_all_iff)

section \<open>The filters of the column materializer\<close>

text \<open>
  C2: the claim is that \<open>PutPODIODataT\<close> skips a collection whose name is
  missing from a non-empty include set, and that an empty include set restricts
  nothing. The code at two inputs: with the include set \<open>{A}\<close> and an empty
  exclude set the collection B is materialized and its name returned; with an
  empty include set and the exclude set \<open>{X}\<close> the collection B is skipped,
  because the second test of \<open>PutPODIODataT\<close> reads the exclude set.
\<close>

theorem PutPODIODataT_reads_exclude_set_for_include:
  "m_OUTPUT_INCLUDE_COLLECTIONS (Init ''A'' [] :: nat EICRootWriter) = {''A''}
   \<and> DeriveCollectionName ''B'' ''D'' facB = ''B''
   \<and> PutPODIODataT ''B'' ''D'' Inr (Init ''A'' []) facB \<lparr>m_datavectors = []\<rparr> =
       (\<lparr>m_datavectors = [\<lparr>name = ''B'', className = ''D'', storage = [2, 3]\<rparr>]\<rparr>, Inr ''B'')
   \<and> m_OUTPUT_INCLUDE_COLLECTIONS (Init [] ''X'' :: nat EICRootWriter) = {}
   \<and> m_OUTPUT_EXCLUDE_COLLECTIONS (Init [] ''X'' :: nat EICRootWriter) = {''X''}
   \<and> PutPODIODataT ''B'' ''D'' Inr (Init [] ''X'') facB \<lparr>m_datavectors = []\<rparr> =
       (\<lparr>m_datavectors = []\<rparr>, Inr [])"
  by (simp add: eval_defs)

text \<open>
  C8: when one of the two filter tests of \<open>PutPODIODataT\<close> fires, the call
  returns the store it was given, with the same data vectors and contents, and
  the empty name.
\<close>

theorem PutPODIODataT_skip_no_mutation:
  assumes "DeriveCollectionName T valueTypeName fac \<in> GetExcludeCollections writer
           \<or> (GetExcludeCollections writer \<noteq> {}
              \<and> DeriveCollectionName T valueTypeName fac \<notin> GetExcludeCollections writer)"
  shows "PutPODIODataT T valueTypeName native writer fac store = (store, Inr [])"
  using assms by (auto simp: PutPODIODataT_def bail_early_def Let_def)

theorem PutPODIODataT_skip_no_mutation_witness:
  "DeriveCollectionName ''B'' ''D'' facB \<in> GetExcludeCollections (Init [] ''A,B'' :: nat EICRootWriter)
   \<and> PutPODIODataT ''B'' ''D'' Inr (Init [] ''A,B'') facB
        \<lparr>m_datavectors = [\<lparr>name = ''B'', className = ''D'', storage = [7]\<rparr>]\<rparr>
      = (\<lparr>m_datavectors = [\<lparr>name = ''B'', className = ''D'', storage = [7]\<rparr>]\<rparr>, Inr [])"
proof -
  have h: "DeriveCollectionName ''B'' ''D'' facB \<in> GetExcludeCollections (Init [] ''A,B'' :: nat EICRootWriter)"
    by (simp add: eval_defs)
  from h PutPODIODataT_skip_no_mutation [OF disjI1 [OF h], of Inr
        "\<lparr>m_datavectors = [\<lparr>name = ''B'', className = ''D'', storage = [7]\<rparr>]\<rparr>"]
  show ?thesis by simp
qed

text \<open>
  C6: a name that is in the include set and in the exclude set is excluded.
  \<open>PutPODIODataT\<close> returns the store unchanged for a producer that resolves
  to it; \<open>ResetBranches\<close> leaves the branches of that name, its entry in
  \<open>m_collection_branches\<close> and its presence in the ID table as they were; and
  no sequence of events creates a branch of that name.
\<close>

theorem listed_in_both_sets_is_excluded:
  assumes "n \<in> m_OUTPUT_INCLUDE_COLLECTIONS writer" and "n \<in> m_OUTPUT_EXCLUDE_COLLECTIONS writer"
  shows "(DeriveCollectionName T valueTypeName fac = n \<longrightarrow>
            PutPODIODataT T valueTypeName native writer fac store = (store, Inr []))
       \<and> filter (\<lambda>b. branch_name b = n) (branches (m_datatree (ResetBranches store writer))) =
           filter (\<lambda>b. branch_name b = n) (branches (m_datatree writer))
       \<and> m_collection_branches (ResetBranches store writer) n = m_collection_branches writer n
       \<and> present (m_collectionIDtable (ResetBranches store writer)) n = present (m_collectionIDtable writer) n
       \<and> (n \<notin> branch_name ` set (branches (m_datatree writer)) \<longrightarrow>
            n \<notin> branch_name ` set (branches (m_datatree (Process_all glue native writer events))))"
proof -
  have f: "filtered writer n"
    using assms(2) by (simp add: filtered_def)
  have "bail_early writer n"
    using assms(2) by (simp add: bail_early_def GetExcludeCollections_def)
  then have m: "DeriveCollectionName T valueTypeName fac = n \<longrightarrow>
            PutPODIODataT T valueTypeName native writer fac store = (store, Inr [])"
    by (simp add: PutPODIODataT_def)
  show ?thesis
    using m fold_ResetBranch_frame [OF f, of "m_datavectors store", folded ResetBranches_def]
      Process_all_frame [OF f, of glue native events]
    by simp
qed

theorem listed_in_both_sets_is_excluded_witness:
  "''B'' \<in> m_OUTPUT_INCLUDE_COLLECTIONS (Init ''A,B'' ''B'' :: nat EICRootWriter)
   \<and> ''B'' \<in> m_OUTPUT_EXCLUDE_COLLECTIONS (Init ''A,B'' ''B'' :: nat EICRootWriter)
   \<and> PutPODIODataT ''B'' ''D'' Inr (Init ''A,B'' ''B'') facB
         \<lparr>m_datavectors = [\<lparr>name = ''B'', className = ''D'', storage = [7]\<rparr>]\<rparr> =
       (\<lparr>m_datavectors = [\<lparr>name = ''B'', className = ''D'', storage = [7]\<rparr>]\<rparr>, Inr [])
   \<and> filter (\<lambda>b. branch_name b = ''B'') (branches (m_datatree (ResetBranches
         \<lparr>m_datavectors = [\<lparr>name = ''B'', className = ''D'', storage = [7]\<rparr>]\<rparr>
         (Init ''A,B'' ''B'' :: nat EICRootWriter)))) = []
   \<and> ''B'' \<notin> branch_name ` set (branches (m_datatree (Process_all glue_by_type Inr (Init ''A,B'' ''B'')
         [\<lparr>GetAllFactories = [facA, facB],
           GetSingle_EICEventStore =
             Some \<lparr>m_datavectors = [\<lparr>name = ''B'', className = ''D'', storage = [2, 3]\<rparr>]\<rparr>\<rparr>])))"
proof -
  have h1: "''B'' \<in> m_OUTPUT_INCLUDE_COLLECTIONS (Init ''A,B'' ''B'' :: nat EICRootWriter)"
    by (simp add: eval_defs)
  have h2: "''B'' \<in> m_OUTPUT_EXCLUDE_COLLECTIONS (Init ''A,B'' ''B'' :: nat EICRootWriter)"
    by (simp add: eval_defs)
  have n: "DeriveCollectionName ''B'' ''D'' facB = ''B''"
    by (simp add: eval_defs)
  show ?thesis
    using h1 h2
      listed_in_both_sets_is_excluded [OF h1 h2, of "''B''" "''D''" facB Inr
        "\<lparr>m_datavectors = [\<lparr>name = ''B'', className = ''D'', storage = [7]\<rparr>]\<rparr>"
         glue_by_type
         "[\<lparr>GetAllFactories = [facA, facB],
           GetSingle_EICEventStore =
             Some \<lparr>m_datavectors = [\<lparr>name = ''B'', className = ''D'', storage = [2, 3]\<rparr>]\<rparr>\<rparr>]"]
    by (simp add: n)
qed

section \<open>Replacement of the buffer contents\<close>

text \<open>
  C4: when \<open>PutPODIODataT\<close> does not bail out and the conversion of the
  objects of the producer succeeds, the first data vector of the resolved name
  (an existing one, or a new one at the end of the store) holds exactly the POD
  values of those objects afterwards, one per object and in their order; every
  other data vector is as before. Whatever the data vector held before is gone.
\<close>

theorem PutPODIODataT_replaces_storage:
  assumes "\<not> bail_early writer (DeriveCollectionName T valueTypeName fac)"
    and "collect native (GetAs fac T) = Inr pods"
  shows "PutPODIODataT T valueTypeName native writer fac store =
           (store\<lparr>m_datavectors :=
              (case find_datavector (DeriveCollectionName T valueTypeName fac) (m_datavectors store) of
                 Some i \<Rightarrow> (m_datavectors store)[i := (m_datavectors store ! i)\<lparr>storage := pods\<rparr>]
               | None \<Rightarrow> m_datavectors store @
                   [\<lparr>name = DeriveCollectionName T valueTypeName fac, className = valueTypeName, storage = pods\<rparr>])\<rparr>,
            Inr (DeriveCollectionName T valueTypeName fac))
         \<and> (\<exists>i. find_datavector (DeriveCollectionName T valueTypeName fac)
                  (m_datavectors (fst (PutPODIODataT T valueTypeName native writer fac store))) = Some i
               \<and> storage (m_datavectors (fst (PutPODIODataT T valueTypeName native writer fac store)) ! i) = pods)
         \<and> map Inr pods = map native (GetAs fac T)
         \<and> length pods = length (GetAs fac T)"
proof -
  let ?n = "DeriveCollectionName T valueTypeName fac"
  have eq: "PutPODIODataT T valueTypeName native writer fac store =
           (store\<lparr>m_datavectors :=
              (case find_datavector ?n (m_datavectors store) of
                 Some i \<Rightarrow> (m_datavectors store)[i := (m_datavectors store ! i)\<lparr>storage := pods\<rparr>]
               | None \<Rightarrow> m_datavectors store @
                   [\<lparr>name = ?n, className = valueTypeName, storage = pods\<rparr>])\<rparr>,
            Inr ?n)"
    using assms by (simp add: PutPODIODataT_def Let_def split: option.splits)
  have fd: "\<exists>i. find_datavector ?n
                  (m_datavectors (fst (PutPODIODataT T valueTypeName native writer fac store))) = Some i
               \<and> storage (m_datavectors (fst (PutPODIODataT T valueTypeName native writer fac store)) ! i) = pods"
    unfolding eq by (auto simp: find_datavector_update find_datavector_append dest: find_datavector_Some split: option.splits)
  show ?thesis using eq fd collect_map[OF assms(2)] map_eq_imp_length_eq[OF collect_map[OF assms(2)]] by simp
qed

theorem PutPODIODataT_replaces_storage_witness:
  "\<not> bail_early (Init [] [] :: nat EICRootWriter) (DeriveCollectionName ''B'' ''D'' facB)
   \<and> collect Inr (GetAs facB ''B'') = (Inr [2, 3] :: string + nat list)
   \<and> PutPODIODataT ''B'' ''D'' Inr (Init [] []) facB
        \<lparr>m_datavectors = [\<lparr>name = ''A'', className = ''D'', storage = [1]\<rparr>,
                          \<lparr>name = ''B'', className = ''D'', storage = [7, 8, 9]\<rparr>]\<rparr>
      = (\<lparr>m_datavectors = [\<lparr>name = ''A'', className = ''D'', storage = [1]\<rparr>,
                           \<lparr>name = ''B'', className = ''D'', storage = [2, 3]\<rparr>]\<rparr>, Inr ''B'')
   \<and> PutPODIODataT ''B'' ''D'' Inr (Init [] []) facB
        \<lparr>m_datavectors = [\<lparr>name = ''A'', className = ''D'', storage = [1]\<rparr>]\<rparr>
      = (\<lparr>m_datavectors = [\<lparr>name = ''A'', className = ''D'', storage = [1]\<rparr>,
                           \<lparr>name = ''B'', className = ''D'', storage = [2, 3]\<rparr>]\<rparr>, Inr ''B'')"
proof -
  have h1: "\<not> bail_early (Init [] [] :: nat EICRootWriter) (DeriveCollectionName ''B'' ''D'' facB)"
    by (simp add: eval_defs)
  have h2: "collect Inr (GetAs facB ''B'') = (Inr [2, 3] :: string + nat list)"
    by (simp add: facB_def)
  have n: "DeriveCollectionName ''B'' ''D'' facB = ''B''"
    by (simp add: eval_defs)
  show ?thesis
    using h1 h2
      PutPODIODataT_replaces_storage [OF h1 h2,
        of "\<lparr>m_datavectors = [\<lparr>name = ''A'', className = ''D'', storage = [1]\<rparr>,
                          \<lparr>name = ''B'', className = ''D'', storage = [7, 8, 9]\<rparr>]\<rparr>"]
      PutPODIODataT_replaces_storage [OF h1 h2,
        of "\<lparr>m_datavectors = [\<lparr>name = ''A'', className = ''D'', storage = [1]\<rparr>]\<rparr>"]
    by (simp add: n)
qed

section \<open>The configuration strings\<close>

text \<open>
  C10: when the include (or exclude) string is not empty and ends with a comma
  or has two commas in a row, \<open>Init\<close> puts the empty name into the include
  (or exclude) set. The include set is then not empty, so \<open>ResetBranches\<close>
  skips every data vector whose name is not in the set, and no branch of such a
  name is ever created.
\<close>

theorem stray_comma_inserts_empty_name:
  assumes "str \<noteq> []" and "last str = CHR '','' \<or> (\<exists>xs ys. str = xs @ '',,'' @ ys)"
  shows "[] \<in> m_OUTPUT_INCLUDE_COLLECTIONS (Init str excl )
       \<and> [] \<in> m_OUTPUT_EXCLUDE_COLLECTIONS (Init incl str )
       \<and> m_OUTPUT_INCLUDE_COLLECTIONS (Init str excl :: 'v EICRootWriter) \<noteq> {}
       \<and> (name dv \<notin> m_OUTPUT_INCLUDE_COLLECTIONS (Init str excl :: 'v EICRootWriter) \<longrightarrow>
            ResetBranch dv (Process_all glue native (Init str excl :: 'v EICRootWriter) events)
              = Process_all glue native (Init str excl :: 'v EICRootWriter) events)
       \<and> (n \<notin> m_OUTPUT_INCLUDE_COLLECTIONS (Init str excl :: 'v EICRootWriter) \<longrightarrow>
            n \<notin> branch_name ` set (branches (m_datatree (Process_all glue native (Init str excl :: 'v EICRootWriter) events))))"
proof -
  have e: "[] \<in> parse_collections str"
    using assms by (rule parse_collections_empty_name)
  then have ne: "m_OUTPUT_INCLUDE_COLLECTIONS (Init str excl ) \<noteq> {}"
    by auto
  have f: "filtered (Init str excl ) m" if "m \<notin> m_OUTPUT_INCLUDE_COLLECTIONS (Init str excl )" for m
    using that ne by (simp add: filtered_def)
  have r: "ResetBranch dv (Process_all glue native (Init str excl :: 'v EICRootWriter) events)
              = Process_all glue native (Init str excl :: 'v EICRootWriter) events"
    if "name dv \<notin> m_OUTPUT_INCLUDE_COLLECTIONS (Init str excl )"
    using f [OF that] by (intro ResetBranch_filtered) (simp add: filtered_def)
  have b: "n \<notin> branch_name ` set (branches (m_datatree (Process_all glue native (Init str excl :: 'v EICRootWriter) events)))"
    if "n \<notin> m_OUTPUT_INCLUDE_COLLECTIONS (Init str excl )"
    using Process_all_frame [OF f [OF that], of glue native events] by simp
  show ?thesis
    using e r b by auto
qed

theorem stray_comma_inserts_empty_name_witness:
  "''A,'' \<noteq> [] \<and> last ''A,'' = CHR '',''
   \<and> m_OUTPUT_INCLUDE_COLLECTIONS (Init ''A,'' [] :: nat EICRootWriter) = {''A'', []}
   \<and> m_OUTPUT_EXCLUDE_COLLECTIONS (Init [] ''A,'' :: nat EICRootWriter) = {''A'', []}
   \<and> m_OUTPUT_INCLUDE_COLLECTIONS (Init ''A,,B'' [] :: nat EICRootWriter) = {''A'', [], ''B''}
   \<and> map branch_name (branches (m_datatree (Process_all glue_by_type Inr (Init ''A,'' [])
         [\<lparr>GetAllFactories = [facA, facB], GetSingle_EICEventStore = None\<rparr>]))) = [''A'']"
proof -
  have h1: "''A,'' \<noteq> []" by simp
  have h2: "last ''A,'' = CHR '','' \<or> (\<exists>xs ys. ''A,'' = xs @ '',,'' @ ys)" by simp
  have h3: "''A,,B'' \<noteq> []" by simp
  have h4: "last ''A,,B'' = CHR '','' \<or> (\<exists>xs ys. ''A,,B'' = xs @ '',,'' @ ys)"
    by (rule disjI2, rule exI [of _ "''A''"], rule exI [of _ "''B''"]) simp
  show ?thesis
    using stray_comma_inserts_empty_name [OF h1 h2, of "[]" "[]"
        "\<lparr>name = ''B'', className = ''D'', storage = [2, 3::nat]\<rparr>" glue_by_type Inr
        "[\<lparr>GetAllFactories = [facA, facB], GetSingle_EICEventStore = None\<rparr>]" "''B''"]
      stray_comma_inserts_empty_name [OF h3 h4, of "[]" "[]"
        "\<lparr>name = ''B'', className = ''D'', storage = [2, 3::nat]\<rparr>" glue_by_type Inr "[]" "''C''"]
    by (auto simp add: eval_defs)
qed

section \<open>The collection ID table\<close>

text \<open>
  C9: adding a name that is present leaves the table as it is, as does the
  guarded registration of \<open>ResetBranches\<close>; adding a name twice is adding it
  once; a name that is present keeps its ID through any registration, through a
  second \<open>ResetBranches\<close> of the same store and through any sequence of
  events; a new name goes to the end of the table with the next ID, so from
  \<open>Init\<close> the IDs are 1, 2, ... in the order in which the names were first seen,
  no name twice.
\<close>

theorem registration_is_idempotent:
  "(present t n \<longrightarrow> (if \<not> present t n then add t n else t) = t \<and> add t n = t)
   \<and> add (add t n) n = add t n
   \<and> present (add t n) n
   \<and> (present t m \<longrightarrow> collectionID (add t n) m = collectionID t m)
   \<and> (\<not> present t n \<longrightarrow> add t n = t @ [(n, int (length t) + 1)])
   \<and> m_collectionIDtable (ResetBranches store (ResetBranches store writer))
       = m_collectionIDtable (ResetBranches store writer)
   \<and> (present (m_collectionIDtable writer) m \<longrightarrow>
        collectionID (m_collectionIDtable (Process_all glue native writer events)) m
          = collectionID (m_collectionIDtable writer) m)
   \<and> (\<exists>new. m_collectionIDtable (Process_all glue native writer events) = m_collectionIDtable writer @ new)
   \<and> map snd (m_collectionIDtable (Process_all glue native (Init incl excl) events))
       = map int [1..<Suc (length (m_collectionIDtable (Process_all glue native (Init incl excl) events)))]
   \<and> distinct (map fst (m_collectionIDtable (Process_all glue native (Init incl excl) events)))"
proof -
  have "ids_in_order (m_collectionIDtable (Init incl excl))"
    by (simp add: ids_in_order_def)
  then have "ids_in_order (m_collectionIDtable (Process_all glue native (Init incl excl) events))"
    using Process_all_table [of "Init incl excl" m glue native events] by simp
  then show ?thesis
    using Process_all_table [of writer m glue native events]
    by (simp add: ids_in_order_def add_when_present add_keeps_id ResetBranches_table_idem)
       (simp add: add_def)
qed

theorem registration_is_idempotent_witness:
  "present [(''A'', 1)] ''A''
   \<and> add [(''A'', 1)] ''A'' = [(''A'', 1)]
   \<and> \<not> present [(''A'', 1)] ''B''
   \<and> add [(''A'', 1)] ''B'' = [(''A'', 1), (''B'', 2)]
   \<and> present (m_collectionIDtable (Process_all glue_by_type Inr (Init [] [])
        [\<lparr>GetAllFactories = [facA], GetSingle_EICEventStore = None\<rparr>])) ''A''
   \<and> collectionID (m_collectionIDtable
        (Process_all glue_by_type Inr
           (Process_all glue_by_type Inr (Init [] [])
              [\<lparr>GetAllFactories = [facA], GetSingle_EICEventStore = None\<rparr>])
           [\<lparr>GetAllFactories = [facB, facA], GetSingle_EICEventStore = None\<rparr>])) ''A'' = Some 1
   \<and> m_collectionIDtable
        (Process_all glue_by_type Inr
           (Process_all glue_by_type Inr (Init [] [])
              [\<lparr>GetAllFactories = [facA], GetSingle_EICEventStore = None\<rparr>])
           [\<lparr>GetAllFactories = [facB, facA], GetSingle_EICEventStore = None\<rparr>]) = [(''A'', 1), (''B'', 2)]"
proof -
  let ?w = "Process_all glue_by_type Inr (Init [] [])
              [\<lparr>GetAllFactories = [facA], GetSingle_EICEventStore = None\<rparr>]"
  have w: "m_collectionIDtable ?w = [(''A'', 1)]"
    by (simp add: eval_defs)
  have h1: "present [(''A'', 1)] ''A''" by (simp add: present_def)
  have h2: "\<not> present [(''A'', 1)] ''B''" by (simp add: present_def)
  show ?thesis
    using h1 h2
      registration_is_idempotent [where t = "[(''A'', 1)]" and n = "''A''" and m = "''A''"
        and writer = ?w and glue = glue_by_type and native = Inr
        and events = "[\<lparr>GetAllFactories = [facB, facA], GetSingle_EICEventStore = None\<rparr>]"
        and store = "\<lparr>m_datavectors = []\<rparr>" and incl = "[]" and excl = "[]"]
      registration_is_idempotent [where t = "[(''A'', 1)]" and n = "''B''" and m = "''A''"
        and writer = ?w and glue = glue_by_type and native = Inr
        and events = "[\<lparr>GetAllFactories = [facB, facA], GetSingle_EICEventStore = None\<rparr>]"
        and store = "\<lparr>m_datavectors = []\<rparr>" and incl = "[]" and excl = "[]"]
    by (simp add: w) (simp add: eval_defs collectionID_def)
qed

section \<open>The store attached to the event\<close>

text \<open>
  C5: when a store is attached to the event, \<open>Process\<close> leaves in it what the
  loop over the factories made of its data vectors, and the factories of the
  event are untouched. Processing the resulting event again, with the resulting
  writer, leaves exactly the same store: no data vector is added, lost or
  changed.
\<close>

theorem borrowed_store_is_swapped_back:
  assumes "GetSingle_EICEventStore event = Some es"
  shows "GetSingle_EICEventStore (fst (snd (Process glue native writer event))) =
           Some (fst (put_factories glue native writer (GetAllFactories event) (es, [])))
       \<and> GetAllFactories (fst (snd (Process glue native writer event))) = GetAllFactories event
       \<and> GetSingle_EICEventStore
           (fst (snd (Process glue native (fst (Process glue native writer event))
                        (fst (snd (Process glue native writer event)))))) =
         GetSingle_EICEventStore (fst (snd (Process glue native writer event)))"
proof -
  have e: "effect_of glue native (fst (Process glue native writer event)) = effect_of glue native writer"
    by (rule effect_of_cong) simp
  show ?thesis
    using assms
    by (simp add: Process_event put_factories_effects e fold_apply_effect_idem)
qed

theorem borrowed_store_is_swapped_back_witness:
  "GetSingle_EICEventStore
     (fst (snd (Process glue_by_type Inr (Init [] [])
        \<lparr>GetAllFactories = [facA, facB],
         GetSingle_EICEventStore =
           Some \<lparr>m_datavectors = [\<lparr>name = ''B'', className = ''D'', storage = [7, 8, 9]\<rparr>]\<rparr>\<rparr>)))
   = Some \<lparr>m_datavectors = [\<lparr>name = ''B'', className = ''D'', storage = [2, 3]\<rparr>,
                            \<lparr>name = ''A'', className = ''D'', storage = [1]\<rparr>]\<rparr>
   \<and> GetSingle_EICEventStore
     (fst (snd (Process glue_by_type Inr
        (fst (Process glue_by_type Inr (Init [] [])
           \<lparr>GetAllFactories = [facA, facB],
            GetSingle_EICEventStore =
              Some \<lparr>m_datavectors = [\<lparr>name = ''B'', className = ''D'', storage = [7, 8, 9]\<rparr>]\<rparr>\<rparr>))
        (fst (snd (Process glue_by_type Inr (Init [] [])
           \<lparr>GetAllFactories = [facA, facB],
            GetSingle_EICEventStore =
              Some \<lparr>m_datavectors = [\<lparr>name = ''B'', className = ''D'', storage = [7, 8, 9]\<rparr>]\<rparr>\<rparr>))))))
   = Some \<lparr>m_datavectors = [\<lparr>name = ''B'', className = ''D'', storage = [2, 3]\<rparr>,
                            \<lparr>name = ''A'', className = ''D'', storage = [1]\<rparr>]\<rparr>"
proof -
  let ?es = "\<lparr>m_datavectors = [\<lparr>name = ''B'', className = ''D'', storage = [7, 8, 9::nat]\<rparr>]\<rparr>"
  let ?ev = "\<lparr>GetAllFactories = [facA, facB], GetSingle_EICEventStore = Some ?es\<rparr>"
  have h: "GetSingle_EICEventStore ?ev = Some ?es" by simp
  have p: "fst (put_factories glue_by_type Inr (Init [] []) [facA, facB] (?es, [])) =
             \<lparr>m_datavectors = [\<lparr>name = ''B'', className = ''D'', storage = [2, 3]\<rparr>,
                            \<lparr>name = ''A'', className = ''D'', storage = [1]\<rparr>]\<rparr>"
    by (simp add: eval_defs)
  show ?thesis
    using borrowed_store_is_swapped_back [OF h, of glue_by_type Inr "Init [] []"] p
    by simp
qed


section \<open>A conversion that raises\<close>

text \<open>
  C7: when the conversion of the objects of a producer raises, the
  loop writes the \<open>what()\<close> of the exception and the declared name of the
  producer to \<open>std::cerr\<close> and goes on with the remaining producers. No value
  of the failing producer reaches the store: the data vectors that were there
  keep their contents, and when none had the name of its collection an empty one
  of that name is added. The message is among the lines written for the event,
  and the event is filled into the tree.
\<close>

theorem conversion_exception_is_local:
  assumes "GetNumObjects fac \<noteq> 0" and "glue fac = Some (T, valueTypeName)"
    and "\<not> bail_early writer (DeriveCollectionName T valueTypeName fac)"
    and "collect native (GetAs fac T) = Inl what"
  shows "put_factories glue native writer (fac # facs) (store, cerr) =
           put_factories glue native writer facs
             (store\<lparr>m_datavectors :=
                (if DeriveCollectionName T valueTypeName fac \<in> name ` set (m_datavectors store)
                 then m_datavectors store
                 else m_datavectors store @
                   [\<lparr>name = DeriveCollectionName T valueTypeName fac, className = valueTypeName,
                     storage = []\<rparr>])\<rparr>,
              cerr @ [what @ '' : '' @ GetObjectName fac])
       \<and> (fac \<in> set (GetAllFactories event) \<longrightarrow>
            what @ '' : '' @ GetObjectName fac \<in> set (snd (snd (Process glue native writer event))))
       \<and> GetEntries (m_datatree (fst (Process glue native writer event))) =
           Suc (GetEntries (m_datatree writer))"
  using assms(1) put_factories_logs [where glue = glue and fac = fac and T = T and valueTypeName = valueTypeName
      and writer = writer and native = native and what = what and facs = "GetAllFactories event", OF assms]
  by (simp add: PutPODIOData_raises [where glue = glue and fac = fac and T = T and valueTypeName = valueTypeName and writer = writer and native = native and what = what, OF assms(2-4)] Process_cerr)

theorem conversion_exception_is_local_witness:
  "GetNumObjects facB \<noteq> 0
   \<and> glue_by_type facB = Some (''B'', ''D'')
   \<and> \<not> bail_early (Init [] [] :: nat EICRootWriter) (DeriveCollectionName ''B'' ''D'' facB)
   \<and> collect rejects_two (GetAs facB ''B'') = Inl ''bad conversion''
   \<and> put_factories glue_by_type rejects_two (Init [] []) [facB, facA] (\<lparr>m_datavectors = []\<rparr>, []) =
       (\<lparr>m_datavectors = [\<lparr>name = ''B'', className = ''D'', storage = []\<rparr>,
                          \<lparr>name = ''A'', className = ''D'', storage = [1]\<rparr>]\<rparr>,
        [''bad conversion : B''])
   \<and> snd (snd (Process glue_by_type rejects_two (Init [] [])
               \<lparr>GetAllFactories = [facB, facA], GetSingle_EICEventStore = None\<rparr>)) = [''bad conversion : B'']
   \<and> GetEntries (m_datatree (fst (Process glue_by_type rejects_two (Init [] [])
               \<lparr>GetAllFactories = [facB, facA], GetSingle_EICEventStore = None\<rparr>))) = 1"
proof -
  have h1: "GetNumObjects facB \<noteq> 0" by (simp add: facB_def)
  have h2: "glue_by_type facB = Some (''B'', ''D'')" by (simp add: facB_def glue_by_type_def)
  have h3: "\<not> bail_early (Init [] [] :: nat EICRootWriter) (DeriveCollectionName ''B'' ''D'' facB)"
    by (simp add: eval_defs)
  have h4: "collect rejects_two (GetAs facB ''B'') = Inl ''bad conversion''"
    by (simp add: facB_def rejects_two_def)
  show ?thesis
    using h1 h2 h3 h4
      conversion_exception_is_local [where glue = glue_by_type and fac = facB and T = "''B''"
        and valueTypeName = "''D''" and writer = "Init [] []" and native = rejects_two
        and what = "''bad conversion''" and facs = "[facA]" and store = "\<lparr>m_datavectors = []\<rparr>"
        and cerr = "[]"
        and event = "\<lparr>GetAllFactories = [facB, facA], GetSingle_EICEventStore = None\<rparr>", OF h1 h2 h3 h4]
    by (simp add: eval_defs rejects_two_def)
qed

text \<open>
  C7 says that the failing producer contributes nothing for the event. At this
  input it does: the producer B fails on an empty store, the store is left with
  an empty data vector B, and the event written has a branch B and an ID for it,
  where the same event without the producer has no branch at all. With a store
  attached to the event that already holds B, the old contents stay and are
  written.
\<close>

theorem failing_producer_leaves_a_column:
  "collect rejects_two (GetAs facB ''B'') = Inl ''bad conversion''
   \<and> fst (PutPODIOData glue_by_type rejects_two (Init [] []) facB \<lparr>m_datavectors = []\<rparr>) =
       \<lparr>m_datavectors = [\<lparr>name = ''B'', className = ''D'', storage = []\<rparr>]\<rparr>
   \<and> map (\<lambda>b. (branch_name b, baskets b))
        (branches (m_datatree (fst (Process glue_by_type rejects_two (Init [] [])
           \<lparr>GetAllFactories = [facB], GetSingle_EICEventStore = None\<rparr>)))) = [(''B'', [[]])]
   \<and> m_collectionIDtable (fst (Process glue_by_type rejects_two (Init [] [])
           \<lparr>GetAllFactories = [facB], GetSingle_EICEventStore = None\<rparr>)) = [(''B'', 1)]
   \<and> branches (m_datatree (fst (Process glue_by_type rejects_two (Init [] [])
           \<lparr>GetAllFactories = [], GetSingle_EICEventStore = None\<rparr>))) = []
   \<and> map (\<lambda>b. (branch_name b, baskets b))
        (branches (m_datatree (fst (Process glue_by_type rejects_two (Init [] [])
           \<lparr>GetAllFactories = [facB],
            GetSingle_EICEventStore =
              Some \<lparr>m_datavectors = [\<lparr>name = ''B'', className = ''D'', storage = [7]\<rparr>]\<rparr>\<rparr>)))) =
       [(''B'', [[7]])]"
  by (simp add: eval_defs rejects_two_def)


end
